theory Spec2Isabelle
  imports Main "HOL-Library.AList"
begin

section \<open>Values and exceptions\<close>

text \<open>
  The generator of \<^verbatim>\<open>scripts/openspec.py\<close> reads vendor schemas (decoded JSON) and
  builds OpenAPI documents out of Python dictionaries, lists, strings, integers and
  booleans. The documents are modelled by the datatype \<open>json\<close>. A Python dictionary
  keeps its keys in insertion order: it is an association list, \<open>d[k] = v\<close> is
  \<open>AList.update k v d\<close> (the value is replaced in place when the key is there and
  appended otherwise), \<open>del d[k]\<close> is \<open>AList.delete k d\<close>, \<open>d.get(k)\<close> is
  \<open>map_of d k\<close>.

  Strings are lists of characters; the letter cases of \<open>str.capitalize\<close> and the
  white space of the regular expressions are modelled on ASCII.
\<close>

datatype json =
  JNull
  | JBool bool
  | JInt int
  | JStr string
  | JList "json list"
  | JObj "(string \<times> json) list"

type_synonym pydict = "(string \<times> json) list"

text \<open>The exceptions the modelled code can raise.\<close>

datatype error = TypeError | KeyError

definition has_key :: "pydict \<Rightarrow> string \<Rightarrow> bool" where
  "has_key d k = (map_of d k \<noteq> None)"

section \<open>Names: \<open>to_pascal_case\<close>\<close>

definition lower_letters :: string where
  "lower_letters = ''abcdefghijklmnopqrstuvwxyz''"

definition upper_letters :: string where
  "upper_letters = ''ABCDEFGHIJKLMNOPQRSTUVWXYZ''"

definition upper_char :: "char \<Rightarrow> char" where
  "upper_char c = (case map_of (zip lower_letters upper_letters) c of Some u \<Rightarrow> u | None \<Rightarrow> c)"

definition lower_char :: "char \<Rightarrow> char" where
  "lower_char c = (case map_of (zip upper_letters lower_letters) c of Some l \<Rightarrow> l | None \<Rightarrow> c)"

text \<open>\<open>str.capitalize\<close>: the first character in upper case, the others in lower case.\<close>

fun capitalize :: "string \<Rightarrow> string" where
  "capitalize [] = []"
| "capitalize (c # cs) = upper_char c # map lower_char cs"

text \<open>\<open>s.replace(a, b)\<close> for single characters.\<close>

definition replace_char :: "char \<Rightarrow> char \<Rightarrow> string \<Rightarrow> string" where
  "replace_char a b s = map (\<lambda>c. if c = a then b else c) s"

text \<open>
  \<open>s.split(sep)\<close> for a single character: the pieces between the separators, empty
  pieces included; the empty string gives one empty piece. A character that is no
  separator goes in front of the first piece of the rest (the rest always has a first
  piece: lemma \<open>split_on_not_Nil\<close>).
\<close>

fun split_on :: "char \<Rightarrow> string \<Rightarrow> string list" where
  "split_on sep [] = [[]]"
| "split_on sep (c # cs) =
     (if c = sep then [] # split_on sep cs
      else (case split_on sep cs of
              [] \<Rightarrow> [[c]]
            | w # ws \<Rightarrow> (c # w) # ws))"

text \<open>
  \<open>to_pascal_case\<close> on a string (on a list the source maps itself over the items).
\<close>

definition to_pascal_case :: "string \<Rightarrow> string" where
  "to_pascal_case snake_str =
     (if snake_str = [] then []
      else concat (map capitalize (split_on CHR ''_'' (replace_char CHR '':'' CHR ''_'' snake_str))))"

section \<open>Raw vendor schemas\<close>

text \<open>
  A raw field descriptor and a raw schema are JSON objects of the vendor. Each key the
  code reads is a component; \<open>None\<close> is a key that is absent (for \<open>raw_schema_of\<close>:
  absent or falsy, that is \<open>null\<close> or the empty object; for \<open>raw_type\<close>: absent or
  not a list). The values have the types the vendor declares for them.
  The restrictions of a schema are a bare list, or an object that may hold a list under
  the key \<open>list\<close>.
\<close>

datatype raw_restrictions =
  RestrictionList "string list"
  | RestrictionDict "string list option"

datatype raw_field =
  RawField
    (raw_name: "string option")
    (raw_supports: "string option")
    (raw_type: "string list option")
    (raw_is_array: "bool option")
    (raw_doc: "string option")
    (raw_searchable_by: "string option")
    (raw_required: "bool option")
    (raw_enum_values: "string list option")
    (raw_schema_of: "raw_schema option")
and raw_schema =
  RawSchema
    (raw_schema_type: "string option")
    (raw_fields: "raw_field list option")
    (raw_restrictions_of: "raw_restrictions option")
    (raw_schema_version: "string option")

section \<open>The Field Transformer\<close>

subsection \<open>Cleaning the documentation text\<close>

text \<open>The ASCII characters that \<open>\s\<close> matches in a Python string pattern.\<close>

definition is_space :: "char \<Rightarrow> bool" where
  "is_space c = (c \<in> set [CHR '' '', CHR 0x09, CHR 0x0A, CHR 0x0B, CHR 0x0C, CHR 0x0D,
                           CHR 0x1C, CHR 0x1D, CHR 0x1E, CHR 0x1F])"

text \<open>The class \<open>[\n\r\t\f\v]\<close> of the first substitution.\<close>

definition is_control_space :: "char \<Rightarrow> bool" where
  "is_control_space c = (c \<in> set [CHR 0x0A, CHR 0x0D, CHR 0x09, CHR 0x0C, CHR 0x0B])"

text \<open>\<open>re.sub(r'\s+', ' ', d)\<close>: every maximal run of white space becomes one space.\<close>

function collapse_spaces :: "string \<Rightarrow> string" where
  "collapse_spaces [] = []"
| "collapse_spaces (c # cs) =
     (if is_space c then CHR '' '' # collapse_spaces (dropWhile is_space cs)
      else c # collapse_spaces cs)"
  by pat_completeness auto
termination
  by (relation "measure length") (auto simp: length_dropWhile_le less_Suc_eq_le)

definition strip :: "string \<Rightarrow> string" where
  "strip s = rev (dropWhile is_space (rev (dropWhile is_space s)))"

definition clean_description :: "string \<Rightarrow> string" where
  "clean_description d =
     (if d = [] then []
      else strip (collapse_spaces (map (\<lambda>c. if is_control_space c then CHR '' '' else c) d)))"

subsection \<open>\<open>process_field\<close>\<close>

text \<open>
  The keys that \<open>convert_field_type_to_openapi\<close> reads from the dictionary it is given;
  \<open>enum\<close> and \<open>parent_property\<close> are read with \<open>get\<close> and may be absent. The
  dictionary that \<open>process_field\<close> returns has these keys (but \<open>parent_property\<close>)
  and more; \<open>nested_schema_name\<close> is the key that \<open>process_schema\<close> adds to a field
  with a nested schema.
\<close>

record field_details =
  field_type :: string
  original_type :: string
  description :: string
  readonly :: bool
  writeonly :: bool
  enum :: "string list option"
  parent_property :: "string option"

record processed_field = field_details +
  name :: string
  deleteonly :: bool
  supports_filtering :: bool
  searchable_by :: string
  required :: bool
  is_array :: bool
  supports :: string
  nested_schema :: "raw_schema option"
  nested_schema_name :: "string option"

text \<open>A Python list of strings is true when it is not empty.\<close>

definition truthy_list :: "'a list option \<Rightarrow> bool" where
  "truthy_list v = (case v of None \<Rightarrow> False | Some xs \<Rightarrow> xs \<noteq> [])"

definition process_field :: "raw_field \<Rightarrow> processed_field option" where
  "process_field field =
     (let field_name = (case raw_name field of None \<Rightarrow> [] | Some n \<Rightarrow> n) in
      if field_name = [] then None
      else
        let supports = (case raw_supports field of None \<Rightarrow> [] | Some s \<Rightarrow> s);
            readonly = (CHR ''r'' \<in> set supports \<and> CHR ''w'' \<notin> set supports);
            writeonly = (CHR ''w'' \<in> set supports \<and> CHR ''r'' \<notin> set supports);
            deleteonly = (CHR ''d'' \<in> set supports \<and> CHR ''r'' \<notin> set supports
                          \<and> CHR ''w'' \<notin> set supports);
            field_types = (case raw_type field of None \<Rightarrow> [''string'']
                           | Some ts \<Rightarrow> if ts = [] then [''string''] else ts);
            original_type = hd field_types;
            is_array = (case raw_is_array field of None \<Rightarrow> False | Some b \<Rightarrow> b);
            field_type = (if is_array then ''array'' else original_type);
            description = clean_description (case raw_doc field of None \<Rightarrow> [] | Some d \<Rightarrow> d);
            searchable_by = (case raw_searchable_by field of None \<Rightarrow> [] | Some s \<Rightarrow> s);
            required = (case raw_required field of None \<Rightarrow> False | Some b \<Rightarrow> b)
        in Some \<lparr> field_type = field_type, original_type = original_type,
                  description = description, readonly = readonly, writeonly = writeonly,
                  enum = raw_enum_values field, parent_property = None,
                  name = field_name, deleteonly = deleteonly,
                  supports_filtering = (searchable_by \<noteq> []), searchable_by = searchable_by,
                  required = required, is_array = is_array, supports = supports,
                  nested_schema = raw_schema_of field, nested_schema_name = None \<rparr>)"

subsection \<open>\<open>convert_field_type_to_openapi\<close>\<close>

definition type_mapping :: "(string \<times> string) list" where
  "type_mapping =
     [(''string'', ''string''), (''uint'', ''integer''), (''int'', ''integer''),
      (''integer'', ''integer''), (''bool'', ''boolean''), (''timestamp'', ''integer''),
      (''enum'', ''string''), (''extattr'', ''object'')]"

definition format_mapping :: "(string \<times> string) list" where
  "format_mapping = [(''timestamp'', ''int64''), (''uint'', ''int64''), (''int'', ''int64'')]"

definition json_strings :: "string list \<Rightarrow> json" where
  "json_strings xs = JList (map JStr xs)"

text \<open>
  The property definition is built key by key, in the order of the source. (The source
  also prints a line for a type outside the table; printing is not modelled.)
\<close>

definition convert_field_type_to_openapi :: "'a field_details_scheme \<Rightarrow> pydict" where
  "convert_field_type_to_openapi fd =
     (let p0 = [(''type'', JStr ''string''), (''description'', JStr (description fd))];
          p1 = (case map_of type_mapping (field_type fd) of
                  Some t \<Rightarrow> AList.update ''type'' (JStr t) p0
                | None \<Rightarrow>
                    if parent_property fd = Some ''is_array'' then p0
                    else AList.update ''type'' (JStr ''object'') p0);
          p2 = (case map_of format_mapping (field_type fd) of
                  Some f \<Rightarrow> AList.update ''format'' (JStr f) p1
                | None \<Rightarrow> p1);
          p3 = (if map_of type_mapping (field_type fd) = None \<and> original_type fd \<noteq> []
                then AList.update ''enum'' (json_strings [original_type fd]) p2 else p2);
          p4 = (if truthy_list (enum fd)
                then AList.update ''enum'' (json_strings (the (enum fd))) p3 else p3);
          p5 = (if readonly fd then AList.update ''readOnly'' (JBool True) p4 else p4);
          p6 = (if writeonly fd then AList.update ''writeOnly'' (JBool True) p5 else p5)
      in p6)"

section \<open>The Schema Normalizer\<close>

text \<open>
  The parts of the generator object that the modelled methods read: the object types
  asked for on the command line, the inverse grouping table, the two schema options
  (both default to true when the configuration leaves them out) and the callback fields
  of each object type.
\<close>

record generator =
  objects :: "string list"
  object_to_group :: "(string \<times> string) list"
  pascal_case_schemas :: bool
  include_examples :: bool
  func_call_fields :: "(string \<times> string list) list"

text \<open>An entry of the list \<open>nested_schemas\<close>: the keys \<open>name\<close>, \<open>schema\<close>, \<open>field_name\<close>.\<close>

record nested_ref =
  nested_name :: string
  nested_raw :: raw_schema
  nested_field_name :: string

text \<open>The dictionary that \<open>process_schema\<close> returns.\<close>

record processed_schema =
  object_type :: string
  object_name :: string
  schema_name :: string
  response_schema_name :: string
  schema_fields :: "(string \<times> processed_field) list"
  filtering_fields :: "string list"
  required_fields :: "string list"
  nested_schemas :: "nested_ref list"
  supports_create :: bool
  supports_delete :: bool
  supports_modify :: bool
  group :: string
  schema_version :: string
  restrictions :: "string list"

text \<open>
  The restrictions as a flat list: a bare list is taken as it is, an object gives the
  list under its key \<open>list\<close>, anything else (no restrictions, an empty value, an object
  without that key) gives the empty list.
\<close>

definition extract_restrictions :: "raw_restrictions option \<Rightarrow> string list" where
  "extract_restrictions r =
     (case r of
        None \<Rightarrow> []
      | Some (RestrictionList xs) \<Rightarrow> xs
      | Some (RestrictionDict None) \<Rightarrow> []
      | Some (RestrictionDict (Some xs)) \<Rightarrow> xs)"

text \<open>
  The loop over the raw fields. Its state is the four collections it fills:
  \<open>processed_fields\<close>, \<open>filtering_fields\<close>, \<open>required_fields\<close>, \<open>nested_schemas\<close>;
  \<open>add_processed_field\<close> is what one round does with a processed field.
  The source reads \<open>processed_field["name"]\<close> with no test of \<open>processed_field\<close> (the
  test is commented out): on \<open>None\<close> the subscript raises \<open>TypeError\<close>.
\<close>

type_synonym field_collections =
  "(string \<times> processed_field) list \<times> string list \<times> string list \<times> nested_ref list"

definition add_processed_field ::
  "string \<Rightarrow> processed_field \<Rightarrow> field_collections \<Rightarrow> field_collections" where
  "add_processed_field type_name pf acc =
     (case acc of (processed_fields, filtering, requireds, nesteds) \<Rightarrow>
        let field_name = name pf;
            filtering' = (if supports_filtering pf then filtering @ [field_name]
                          else filtering);
            requireds' = (if required pf then requireds @ [field_name] else requireds);
            nested_schema_name' = to_pascal_case (type_name @ ''_'' @ field_name);
            nesteds' = (case nested_schema pf of
                          None \<Rightarrow> nesteds
                        | Some sch \<Rightarrow>
                            nesteds @ [\<lparr> nested_name = nested_schema_name',
                                        nested_raw = sch,
                                        nested_field_name = field_name \<rparr>]);
            pf' = (case nested_schema pf of
                     None \<Rightarrow> pf
                   | Some sch \<Rightarrow> pf \<lparr> nested_schema_name := Some nested_schema_name' \<rparr>)
        in (AList.update field_name pf' processed_fields, filtering', requireds', nesteds'))"

fun process_schema_fields ::
  "string \<Rightarrow> raw_field list \<Rightarrow> field_collections \<Rightarrow> error + field_collections" where
  "process_schema_fields type_name [] acc = Inr acc"
| "process_schema_fields type_name (field # rest) acc =
     (case process_field field of
        None \<Rightarrow> Inl TypeError
      | Some pf \<Rightarrow> process_schema_fields type_name rest (add_processed_field type_name pf acc))"

text \<open>
  \<open>process_schema\<close>. The schema argument is \<open>None\<close> when the source's \<open>schema\<close> is
  falsy (no schema was fetched); the result is then \<open>None\<close> as well.
\<close>

definition process_schema ::
  "generator \<Rightarrow> raw_schema option \<Rightarrow> string \<Rightarrow> error + processed_schema option" where
  "process_schema self schema_opt object_type' =
     (case schema_opt of
        None \<Rightarrow> Inr None
      | Some schema \<Rightarrow>
          let type_name = (case raw_schema_type schema of None \<Rightarrow> object_type' | Some t \<Rightarrow> t);
              raw_fields' = (case raw_fields schema of None \<Rightarrow> [] | Some fs \<Rightarrow> fs);
              restrictions' = extract_restrictions (raw_restrictions_of schema)
          in case process_schema_fields type_name raw_fields' ([], [], [], []) of
               Inl e \<Rightarrow> Inl e
             | Inr (processed_fields, filtering, requireds, nesteds) \<Rightarrow>
                 let group' = (if length (objects self) = 1 then ''custom''
                               else (case map_of (object_to_group self) object_type' of
                                       None \<Rightarrow> ''other'' | Some g \<Rightarrow> g));
                     schema_name' = (if pascal_case_schemas self then to_pascal_case type_name
                                     else replace_char CHR '':'' CHR ''_'' type_name)
                 in Inr (Some
                      \<lparr> object_type = type_name,
                        object_name = map lower_char (replace_char CHR '':'' CHR ''_'' type_name),
                        schema_name = schema_name',
                        response_schema_name = ''List'' @ schema_name' @ ''Response'',
                        schema_fields = processed_fields,
                        filtering_fields = filtering,
                        required_fields = requireds,
                        nested_schemas = nesteds,
                        supports_create = (''create'' \<notin> set restrictions'),
                        supports_delete = (''delete'' \<notin> set restrictions'),
                        supports_modify =
                          list_ex (\<lambda>(field_name, field_details). CHR ''w'' \<in> set (supports field_details))
                            processed_fields,
                        group = group',
                        schema_version = (case raw_schema_version schema of
                                            None \<Rightarrow> ''2'' | Some v \<Rightarrow> v),
                        restrictions = restrictions' \<rparr>))"

section \<open>The Path Emitter\<close>

text \<open>
  The loop of \<open>generate_group_api\<close> that fills \<open>api["paths"]\<close>. The literals that the
  source repeats (references to shared parameters and to schemas, the responses without
  a body, the \<open>reference\<close> path parameter, the security requirement) are named once.
\<close>

definition parameter_ref :: "string \<Rightarrow> json" where
  "parameter_ref n = JObj [(''$ref'', JStr (''#/components/parameters/'' @ n))]"

definition schema_ref :: "string \<Rightarrow> json" where
  "schema_ref n = JObj [(''$ref'', JStr (''#/components/schemas/'' @ n))]"

definition json_content :: "json \<Rightarrow> json" where
  "json_content sch = JObj [(''application/json'', JObj [(''schema'', sch)])]"

definition plain_response :: "string \<Rightarrow> string \<Rightarrow> string \<times> json" where
  "plain_response code d = (code, JObj [(''description'', JStr d)])"

definition basic_auth :: json where
  "basic_auth = JList [JObj [(''basicAuth'', JList [])]]"

definition reference_parameter :: "string \<Rightarrow> json" where
  "reference_parameter object_type' =
     JObj [(''name'', JStr ''reference''),
           (''in'', JStr ''path''),
           (''description'', JStr (''Reference of the '' @ object_type' @ '' object'')),
           (''required'', JBool True),
           (''schema'', JObj [(''type'', JStr ''string'')])]"

text \<open>
  An optional query parameter for a field: its type is the \<open>type\<close> of the field's
  property definition (\<open>property_def.get("type", "string")\<close>).
\<close>

definition query_parameter :: "string \<Rightarrow> processed_field \<Rightarrow> json" where
  "query_parameter field_name field_detail =
     JObj [(''name'', JStr field_name),
           (''in'', JStr ''query''),
           (''description'', JStr (description field_detail)),
           (''required'', JBool False),
           (''schema'',
              JObj [(''type'',
                     (case map_of (convert_field_type_to_openapi field_detail) ''type'' of
                        None \<Rightarrow> JStr ''string'' | Some t \<Rightarrow> t))])]"

text \<open>
  The filtering parameters of the collection GET. A name of \<open>filtering_fields\<close> that is
  no key of \<open>fields\<close> makes the source convert the empty dictionary, and the
  subscript \<open>field_details["type"]\<close> raises \<open>KeyError\<close>.
\<close>

fun filtering_parameters ::
  "(string \<times> processed_field) list \<Rightarrow> string list \<Rightarrow> error + json list" where
  "filtering_parameters fds [] = Inr []"
| "filtering_parameters fds (field_name # rest) =
     (case map_of fds field_name of
        None \<Rightarrow> Inl KeyError
      | Some field_detail \<Rightarrow>
          (case filtering_parameters fds rest of
             Inl e \<Rightarrow> Inl e
           | Inr ps \<Rightarrow> Inr (query_parameter field_name field_detail # ps)))"

definition list_operation :: "processed_schema \<Rightarrow> json list \<Rightarrow> json" where
  "list_operation schema filter_params =
     (let object_type' = object_type schema in
      JObj [(''tags'', JList [JStr (to_pascal_case object_type')]),
            (''operationId'', JStr (to_pascal_case object_type' @ ''List'')),
            (''summary'', JStr (''Retrieve '' @ object_type' @ '' objects'')),
            (''description'', JStr (''Returns a list of '' @ object_type'
                                     @ '' objects matching the search criteria'')),
            (''parameters'',
               JList ([parameter_ref ''ReturnFields'', parameter_ref ''ReturnFieldsPlus'',
                       parameter_ref ''MaxResults'', parameter_ref ''ReturnAsObject'',
                       parameter_ref ''Paging'', parameter_ref ''PageId'',
                       parameter_ref ''ProxySearch'', parameter_ref ''Schema'',
                       parameter_ref ''SchemaVersion'', parameter_ref ''GetDoc'',
                       parameter_ref ''SchemaSearchable'', parameter_ref ''Inheritance'']
                      @ filter_params)),
            (''responses'',
               JObj [(''200'', JObj [(''description'', JStr ''Successful operation''),
                                     (''content'',
                                        json_content (schema_ref (response_schema_name schema)))]),
                     plain_response ''400'' ''Bad request'',
                     plain_response ''401'' ''Unauthorized'',
                     plain_response ''403'' ''Forbidden'',
                     plain_response ''404'' ''Not found'']),
            (''security'', basic_auth)])"

definition create_operation :: "processed_schema \<Rightarrow> json" where
  "create_operation schema =
     (let object_type' = object_type schema in
      JObj [(''tags'', JList [JStr (to_pascal_case object_type')]),
            (''operationId'', JStr (to_pascal_case object_type' @ ''Create'')),
            (''summary'', JStr (''Create a '' @ object_type' @ '' object'')),
            (''description'', JStr (''Creates a new '' @ object_type' @ '' object'')),
            (''parameters'',
               JList [parameter_ref ''ReturnFields'', parameter_ref ''ReturnFieldsPlus'',
                      parameter_ref ''ReturnAsObject'', parameter_ref ''Inheritance'']),
            (''requestBody'',
               JObj [(''description'', JStr ''Object data to create''),
                     (''required'', JBool True),
                     (''content'', json_content (schema_ref (schema_name schema)))]),
            (''responses'',
               JObj [(''201'', JObj [(''description'', JStr ''Object created successfully''),
                                     (''content'',
                                        json_content
                                          (schema_ref (''Create'' @ schema_name schema
                                                       @ ''Response'')))]),
                     plain_response ''400'' ''Bad request'',
                     plain_response ''401'' ''Unauthorized'',
                     plain_response ''403'' ''Forbidden'']),
            (''security'', basic_auth)])"

definition read_operation :: "processed_schema \<Rightarrow> json" where
  "read_operation schema =
     (let object_type' = object_type schema in
      JObj [(''tags'', JList [JStr (to_pascal_case object_type')]),
            (''operationId'', JStr (to_pascal_case object_type' @ ''Read'')),
            (''summary'', JStr (''Get a specific '' @ object_type' @ '' object'')),
            (''description'', JStr (''Returns a specific '' @ object_type'
                                     @ '' object by reference'')),
            (''parameters'',
               JList [reference_parameter object_type',
                      parameter_ref ''ReturnFields'', parameter_ref ''ReturnFieldsPlus'',
                      parameter_ref ''ReturnAsObject'', parameter_ref ''Inheritance'']),
            (''responses'',
               JObj [(''200'', JObj [(''description'', JStr ''Successful operation''),
                                     (''content'',
                                        json_content
                                          (schema_ref (''Get'' @ schema_name schema
                                                       @ ''Response'')))]),
                     plain_response ''400'' ''Bad request'',
                     plain_response ''401'' ''Unauthorized'',
                     plain_response ''403'' ''Forbidden'',
                     plain_response ''404'' ''Not found'']),
            (''security'', basic_auth)])"

definition update_operation :: "processed_schema \<Rightarrow> json" where
  "update_operation schema =
     (let object_type' = object_type schema in
      JObj [(''tags'', JList [JStr (to_pascal_case object_type')]),
            (''operationId'', JStr (to_pascal_case object_type' @ ''Update'')),
            (''summary'', JStr (''Update a '' @ object_type' @ '' object'')),
            (''description'', JStr (''Updates a specific '' @ object_type'
                                     @ '' object by reference'')),
            (''parameters'',
               JList [reference_parameter object_type',
                      parameter_ref ''ReturnFields'', parameter_ref ''ReturnFieldsPlus'',
                      parameter_ref ''ReturnAsObject'']),
            (''requestBody'',
               JObj [(''description'', JStr ''Object data to update''),
                     (''required'', JBool True),
                     (''content'', json_content (schema_ref (schema_name schema)))]),
            (''responses'',
               JObj [(''200'', JObj [(''description'', JStr ''Object updated successfully''),
                                     (''content'',
                                        json_content
                                          (schema_ref (''Update'' @ schema_name schema
                                                       @ ''Response'')))]),
                     plain_response ''400'' ''Bad request'',
                     plain_response ''401'' ''Unauthorized'',
                     plain_response ''403'' ''Forbidden'',
                     plain_response ''404'' ''Not found'']),
            (''security'', basic_auth)])"

text \<open>
  The parameters of DELETE: the path parameter, then one query parameter for each
  delete-only field, in the order of \<open>fields\<close>.
\<close>

definition delete_params :: "processed_schema \<Rightarrow> json list" where
  "delete_params schema =
     reference_parameter (object_type schema)
     # map (\<lambda>(field_name, field_details). query_parameter field_name field_details)
         (filter (\<lambda>(field_name, field_details). deleteonly field_details)
            (schema_fields schema))"

definition delete_operation :: "processed_schema \<Rightarrow> json" where
  "delete_operation schema =
     (let object_type' = object_type schema in
      JObj [(''tags'', JList [JStr (to_pascal_case object_type')]),
            (''operationId'', JStr (to_pascal_case object_type' @ ''Delete'')),
            (''summary'', JStr (''Delete a '' @ object_type' @ '' object'')),
            (''description'', JStr (''Deletes a specific '' @ object_type'
                                     @ '' object by reference'')),
            (''parameters'', JList (delete_params schema)),
            (''responses'',
               JObj [plain_response ''200'' ''Object deleted successfully'',
                     plain_response ''400'' ''Bad request'',
                     plain_response ''401'' ''Unauthorized'',
                     plain_response ''403'' ''Forbidden'',
                     plain_response ''404'' ''Not found'']),
            (''security'', basic_auth)])"

definition collection_path :: "processed_schema \<Rightarrow> string" where
  "collection_path schema = ''/'' @ object_type schema"

definition item_path :: "processed_schema \<Rightarrow> string" where
  "item_path schema = ''/'' @ object_type schema @ ''/{reference}''"

text \<open>
  One round of the loop: the path item of the collection (GET, with the filtering
  parameters appended, and POST when the schema supports create), then the path item of
  one object (GET, PUT when the schema supports modify, DELETE when it supports delete).
\<close>

definition add_schema_paths :: "processed_schema \<Rightarrow> pydict \<Rightarrow> error + pydict" where
  "add_schema_paths schema paths =
     (case filtering_parameters (schema_fields schema) (filtering_fields schema) of
        Inl e \<Rightarrow> Inl e
      | Inr filter_params \<Rightarrow>
          let c0 = [(''get'', list_operation schema filter_params)];
              c1 = (if supports_create schema
                    then AList.update ''post'' (create_operation schema) c0 else c0);
              paths1 = AList.update (collection_path schema) (JObj c1) paths;
              i0 = [(''get'', read_operation schema)];
              i1 = (if supports_modify schema
                    then AList.update ''put'' (update_operation schema) i0 else i0);
              i2 = (if supports_delete schema
                    then AList.update ''delete'' (delete_operation schema) i1 else i1)
          in Inr (AList.update (item_path schema) (JObj i2) paths1))"

fun generate_paths :: "processed_schema list \<Rightarrow> pydict \<Rightarrow> error + pydict" where
  "generate_paths [] paths = Inr paths"
| "generate_paths (schema # rest) paths =
     (case add_schema_paths schema paths of
        Inl e \<Rightarrow> Inl e
      | Inr paths' \<Rightarrow> generate_paths rest paths')"




section \<open>The Schema Emitter\<close>

subsection \<open>Property definitions\<close>

definition generate_extensible_attributes_schema :: json where
  "generate_extensible_attributes_schema =
     JObj [(''type'', JStr ''object''),
           (''properties'',
              JObj [(''value'',
                     JObj [(''description'', JStr ''The value of the extensible attribute.'')])]),
           (''required'', JList [JStr ''value'']),
           (''description'', JStr ''Extensible attributes associated with the object.'')]"

text \<open>\<open>del d[k]\<close> raises \<open>KeyError\<close> when the key is not there.\<close>

definition py_del :: "string \<Rightarrow> pydict \<Rightarrow> error + pydict" where
  "py_del k d = (if has_key d k then Inr (AList.delete k d) else Inl KeyError)"

text \<open>\<open>d.get(k)\<close> of a string, when the value is true (there and not empty).\<close>

definition nonempty_name :: "string option \<Rightarrow> string option" where
  "nonempty_name v = (case v of None \<Rightarrow> None | Some n \<Rightarrow> if n = [] then None else Some n)"

text \<open>The example values, added when the configuration asks for them.\<close>

definition add_example :: "bool \<Rightarrow> string \<Rightarrow> pydict \<Rightarrow> pydict" where
  "add_example enabled field_name property_def =
     (if \<not> enabled then property_def
      else if map_of property_def ''type'' = Some (JStr ''string'')
        then AList.update ''example'' (JStr (''Example '' @ field_name)) property_def
      else if map_of property_def ''type'' = Some (JStr ''integer'')
        then AList.update ''example'' (JInt 1) property_def
      else if map_of property_def ''type'' = Some (JStr ''boolean'')
        then AList.update ''example'' (JBool False) property_def
      else property_def)"

text \<open>
  A regular array: the type of the items comes from converting a small descriptor made
  of the original type. The emitter of the primary schemas marks the descriptor with
  \<open>parent_property = is_array\<close>; the expansion of nested schemas does not.
  The subscript \<open>item_type["type"]\<close> raises \<open>KeyError\<close> on a missing key.
\<close>

definition item_descriptor :: "'a field_details_scheme \<Rightarrow> string option \<Rightarrow> field_details" where
  "item_descriptor fd parent =
     \<lparr> field_type = original_type fd, original_type = original_type fd, description = [],
       readonly = False, writeonly = False, enum = None, parent_property = parent \<rparr>"

definition array_items :: "pydict \<Rightarrow> error + json" where
  "array_items item_type =
     (case map_of item_type ''type'' of
        None \<Rightarrow> Inl KeyError
      | Some t \<Rightarrow>
          Inr (JObj (case map_of item_type ''enum'' of
                       None \<Rightarrow> [(''type'', t)]
                     | Some e \<Rightarrow> AList.update ''enum'' e [(''type'', t)])))"

definition regular_array ::
  "string option \<Rightarrow> 'a field_details_scheme \<Rightarrow> pydict \<Rightarrow> error + pydict" where
  "regular_array parent fd property_def =
     (case array_items (convert_field_type_to_openapi (item_descriptor fd parent)) of
        Inl e \<Rightarrow> Inl e
      | Inr items \<Rightarrow>
          Inr (AList.update ''items'' items
                 (AList.update ''type'' (JStr ''array'') property_def)))"

text \<open>
  The property definition that \<open>process_nested_schema_fields\<close> builds for a processed
  field of the nested schema \<open>schema_name\<close>, up to the final removal of \<open>type\<close> beside
  a \<open>$ref\<close>. It does not depend on the schemas built so far.
\<close>

definition nested_property_def ::
  "generator \<Rightarrow> string \<Rightarrow> processed_field \<Rightarrow> error + pydict" where
  "nested_property_def self schema_name' pf =
     (let field_name = name pf;
          p0 = add_example (include_examples self) field_name
                 (convert_field_type_to_openapi pf);
          child = to_pascal_case (schema_name' @ ''_'' @ field_name);
          branch =
            (if nested_schema pf \<noteq> None \<and> is_array pf then
               Inr [(''type'', JStr ''array''),
                    (''description'', JStr (description pf)),
                    (''items'', schema_ref child)]
             else if nested_schema pf \<noteq> None then
               Inr (AList.update ''$ref'' (JStr (''#/components/schemas/'' @ child)) p0)
             else if is_array pf \<and> nonempty_name (nested_schema_name pf) \<noteq> None then
               (case nonempty_name (nested_schema_name pf) of
                  None \<Rightarrow> Inr p0
                | Some n \<Rightarrow>
                    Inr (AList.update ''items'' (schema_ref n)
                           (AList.update ''type'' (JStr ''array'') p0)))
             else if is_array pf then regular_array None pf p0
             else Inr p0)
      in case branch of
           Inl e \<Rightarrow> Inl e
         | Inr p \<Rightarrow> if has_key p ''$ref'' then py_del ''type'' p else Inr p)"

text \<open>The two-branch union of a callback field.\<close>

definition func_call_union :: "processed_schema \<Rightarrow> string \<Rightarrow> processed_field \<Rightarrow> json" where
  "func_call_union schema field_name field_details =
     (let d = JStr (object_type schema @ '': '' @ description field_details);
          props = [(''_object_function'', JObj [(''type'', JStr ''string'')]),
                   (''_parameters'', JObj [(''type'', JStr ''object'')]),
                   (''_result_field'', JObj [(''type'', JStr ''string'')]),
                   (''_object'', JObj [(''type'', JStr ''string'')]),
                   (''_object_parameters'', JObj [(''type'', JStr ''object'')])];
          props' = (if field_name = ''network''
                    then AList.update ''_object_ref''
                           (JObj [(''type'', JStr ''string''),
                                  (''description'',
                                     JStr (''A WAPI object reference on which the function calls. ''
                                           @ ''Either _object or _object_ref must be set.''))])
                           props
                    else props)
      in JList [JObj [(''type'', JStr ''string''), (''description'', d)],
                JObj [(''type'', JStr ''object''), (''description'', d),
                      (''properties'', JObj props')]])"

text \<open>
  The property definition that \<open>generate_schemas_for_objects\<close> builds for the entry
  \<open>field_name\<close>, \<open>field_details\<close> of \<open>schema["fields"]\<close>; \<open>None\<close> is the
  \<open>continue\<close> of the field \<open>_ref\<close>.
\<close>

definition main_property_def ::
  "generator \<Rightarrow> processed_schema \<Rightarrow> string \<Rightarrow> processed_field \<Rightarrow> error + pydict option" where
  "main_property_def self schema field_name field_details =
     (let p0 = convert_field_type_to_openapi field_details;
          special_fields = (case map_of (func_call_fields self) (object_type schema) of
                              None \<Rightarrow> [] | Some l \<Rightarrow> l)
      in if field_name = ''_ref'' then Inr None
         else
           case (if field_name = ''extattrs''
                   then Inr (AList.update ''additionalProperties'' (schema_ref ''ExtAttrs'') p0)
                 else if field_name \<in> set special_fields
                   then (case py_del ''type'' p0 of
                           Inl e \<Rightarrow> Inl e
                         | Inr p \<Rightarrow>
                             Inr (AList.update ''oneOf''
                                    (func_call_union schema field_name field_details) p))
                 else Inr p0) of
             Inl e \<Rightarrow> Inl e
           | Inr p1 \<Rightarrow>
               (case (case nonempty_name (nested_schema_name field_details) of
                        Some n \<Rightarrow>
                          if is_array field_details
                          then Inr (AList.update ''items'' (schema_ref n)
                                      (AList.update ''type'' (JStr ''array'') p1))
                          else Inr [(''$ref'', JStr (''#/components/schemas/'' @ n))]
                      | None \<Rightarrow>
                          if is_array field_details
                          then regular_array (Some ''is_array'') field_details p1
                          else Inr p1) of
                  Inl e \<Rightarrow> Inl e
                | Inr p2 \<Rightarrow> Inr (Some (add_example (include_examples self) field_name p2))))"

subsection \<open>The schemas map\<close>

text \<open>
  The state of the emitter: the dictionary \<open>schemas_data\<close> and the set
  \<open>created_schemas\<close> of the generator object.
\<close>

type_synonym emitter_state = "pydict \<times> string set"

text \<open>\<open>schemas_data[schema_name]["properties"][field_name] = property_def\<close>.\<close>

definition set_property :: "string \<Rightarrow> string \<Rightarrow> pydict \<Rightarrow> pydict \<Rightarrow> error + pydict" where
  "set_property schema_name' field_name property_def schemas_data =
     (case map_of schemas_data schema_name' of
        None \<Rightarrow> Inl KeyError
      | Some (JObj obj) \<Rightarrow>
          (case map_of obj ''properties'' of
             None \<Rightarrow> Inl KeyError
           | Some (JObj props) \<Rightarrow>
               Inr (AList.update schema_name'
                      (JObj (AList.update ''properties''
                               (JObj (AList.update field_name (JObj property_def) props)) obj))
                      schemas_data)
           | Some _ \<Rightarrow> Inl TypeError)
      | Some _ \<Rightarrow> Inl TypeError)"

definition empty_object_schema :: json where
  "empty_object_schema = JObj [(''type'', JStr ''object''), (''properties'', JObj [])]"

text \<open>
  \<open>process_nested_schema_fields\<close> and its loop over the fields of the nested schema.
  The recursion follows the raw schema: a field with a nested schema expands that schema
  under the name made of the name of the enclosing schema and of the field.
\<close>

function process_nested_schema_fields ::
    "generator \<Rightarrow> string \<Rightarrow> raw_schema \<Rightarrow> emitter_state \<Rightarrow> error + emitter_state"
  and nested_fields_loop ::
    "generator \<Rightarrow> string \<Rightarrow> raw_field list \<Rightarrow> emitter_state \<Rightarrow> error + emitter_state"
  where
  "process_nested_schema_fields self schema_name' schema_data st =
     (if schema_name' \<in> snd st then Inr st
      else nested_fields_loop self schema_name'
             (case raw_fields schema_data of None \<Rightarrow> [] | Some fs \<Rightarrow> fs)
             (AList.update schema_name' empty_object_schema (fst st),
              insert schema_name' (snd st)))"
| "nested_fields_loop self schema_name' [] st = Inr st"
| "nested_fields_loop self schema_name' (field # rest) st =
     (case process_field field of
        None \<Rightarrow> nested_fields_loop self schema_name' rest st
      | Some pf \<Rightarrow>
          (case nested_property_def self schema_name' pf of
             Inl e \<Rightarrow> Inl e
           | Inr property_def \<Rightarrow>
               (case (case nested_schema pf of
                        None \<Rightarrow> Inr st
                      | Some sch \<Rightarrow>
                          process_nested_schema_fields self
                            (to_pascal_case (schema_name' @ ''_'' @ name pf)) sch st) of
                  Inl e \<Rightarrow> Inl e
                | Inr st' \<Rightarrow>
                    (case set_property schema_name' (name pf) property_def (fst st') of
                       Inl e \<Rightarrow> Inl e
                     | Inr schemas_data \<Rightarrow>
                         nested_fields_loop self schema_name' rest (schemas_data, snd st')))))"
  by pat_completeness auto
termination
proof -
  have size_raw_schema_pos: "0 < size schema_data" for schema_data :: raw_schema
    by (cases schema_data) simp
  have size_raw_fields: "size_list size fs < size schema_data"
    if "raw_fields schema_data = Some fs" for schema_data fs
    using that by (cases schema_data) simp
  have size_nested_schema: "size sch < size field"
    if "process_field field = Some pf" and "nested_schema pf = Some sch" for field pf sch
    using that by (cases field) (auto simp: process_field_def Let_def split: if_splits)
  show ?thesis
    by (relation "measure (\<lambda>x. case x of
            Inl (self, n, schema_data, st) \<Rightarrow> size schema_data
          | Inr (self, n, fs, st) \<Rightarrow> size_list size fs)")
       (auto split: option.splits simp: size_raw_schema_pos
          dest: size_raw_fields size_nested_schema)
qed

subsection \<open>\<open>generate_schemas_for_objects\<close>\<close>

text \<open>The primary object schema, with its built-in property \<open>_ref\<close>.\<close>

definition builtin_ref_property :: json where
  "builtin_ref_property =
     JObj [(''type'', JStr ''string''), (''description'', JStr ''The reference to the object.'')]"

definition primary_schema :: "processed_schema \<Rightarrow> json" where
  "primary_schema schema =
     (let s0 = [(''type'', JStr ''object''),
                (''additionalProperties'', JBool False),
                (''properties'', JObj [(''_ref'', builtin_ref_property)])]
      in JObj (if required_fields schema \<noteq> []
               then AList.update ''required'' (json_strings (required_fields schema)) s0
               else s0))"

text \<open>The loop over \<open>schema["fields"].items()\<close>.\<close>

fun emit_properties ::
  "generator \<Rightarrow> processed_schema \<Rightarrow> (string \<times> processed_field) list \<Rightarrow> pydict
     \<Rightarrow> error + pydict" where
  "emit_properties self schema [] schemas_data = Inr schemas_data"
| "emit_properties self schema ((field_name, field_details) # rest) schemas_data =
     (case main_property_def self schema field_name field_details of
        Inl e \<Rightarrow> Inl e
      | Inr None \<Rightarrow> emit_properties self schema rest schemas_data
      | Inr (Some property_def) \<Rightarrow>
          (case set_property (schema_name schema) field_name property_def schemas_data of
             Inl e \<Rightarrow> Inl e
           | Inr schemas_data' \<Rightarrow> emit_properties self schema rest schemas_data'))"

text \<open>
  The primary schema and its properties: the rounds of the loop over the schemas up
  to the expansion of the nested schemas.
\<close>

definition emit_primary :: "generator \<Rightarrow> processed_schema \<Rightarrow> pydict \<Rightarrow> error + pydict" where
  "emit_primary self schema schemas_data =
     emit_properties self schema (schema_fields schema)
       (AList.update (schema_name schema) (primary_schema schema) schemas_data)"

text \<open>The loop over \<open>schema["nested_schemas"]\<close>.\<close>

fun expand_nested_schemas ::
  "generator \<Rightarrow> nested_ref list \<Rightarrow> emitter_state \<Rightarrow> error + emitter_state" where
  "expand_nested_schemas self [] st = Inr st"
| "expand_nested_schemas self (nested # rest) st =
     (case process_nested_schema_fields self (nested_name nested) (nested_raw nested) st of
        Inl e \<Rightarrow> Inl e
      | Inr st' \<Rightarrow> expand_nested_schemas self rest st')"

text \<open>The four response schemas.\<close>

definition result_object :: "string \<Rightarrow> string \<Rightarrow> json \<Rightarrow> json" where
  "result_object d title result =
     JObj [(''description'', JStr d), (''type'', JStr ''object''), (''title'', JStr title),
           (''properties'', JObj [(''result'', result)])]"

definition list_response :: "processed_schema \<Rightarrow> json" where
  "list_response schema =
     (let d = ''The response format to retrieve __'' @ schema_name schema @ ''__ objects.'';
          items = JObj [(''type'', JStr ''array''), (''items'', schema_ref (schema_name schema))]
      in JObj [(''oneOf'',
                JList [JObj [(''description'', JStr d), (''type'', JStr ''array''),
                             (''title'', JStr (response_schema_name schema @ ''Array'')),
                             (''items'', schema_ref (schema_name schema))],
                       result_object d (response_schema_name schema @ ''Object'') items])])"

definition create_response :: "processed_schema \<Rightarrow> json" where
  "create_response schema =
     JObj [(''oneOf'',
            JList [result_object
                     (''The response format to create __'' @ schema_name schema
                      @ ''__ in object format.'')
                     (''Create'' @ schema_name schema @ ''ResponseAsObject'')
                     (schema_ref (schema_name schema)),
                   JObj [(''description'',
                            JStr (''The response format to create __'' @ schema_name schema
                                  @ ''__.'')),
                         (''type'', JStr ''string''),
                         (''title'', JStr (''Create'' @ schema_name schema @ ''Response''))]])]"

definition get_response :: "processed_schema \<Rightarrow> json" where
  "get_response schema =
     JObj [(''oneOf'',
            JList [schema_ref (schema_name schema),
                   JObj [(''description'',
                            JStr (''The response format to retrieve __'' @ schema_name schema
                                  @ ''__ objects.'')),
                         (''type'', JStr ''object''),
                         (''additionalProperties'', JBool False),
                         (''title'',
                            JStr (''Get'' @ schema_name schema @ ''ResponseObjectAsResult'')),
                         (''properties'',
                            JObj [(''result'', schema_ref (schema_name schema))])]])]"

definition update_response :: "processed_schema \<Rightarrow> json" where
  "update_response schema =
     JObj [(''oneOf'',
            JList [result_object
                     (''The response format to update __'' @ schema_name schema
                      @ ''__ in object format.'')
                     (''Update'' @ schema_name schema @ ''ResponseAsObject'')
                     (schema_ref (schema_name schema)),
                   JObj [(''description'',
                            JStr (''The response format to update __'' @ schema_name schema
                                  @ ''__ .'')),
                         (''type'', JStr ''string''),
                         (''title'', JStr (''Update'' @ schema_name schema @ ''Response''))]])]"

definition create_schema_name :: "processed_schema \<Rightarrow> string" where
  "create_schema_name schema = ''Create'' @ schema_name schema @ ''Response''"

definition get_schema_name :: "processed_schema \<Rightarrow> string" where
  "get_schema_name schema = ''Get'' @ schema_name schema @ ''Response''"

definition update_schema_name :: "processed_schema \<Rightarrow> string" where
  "update_schema_name schema = ''Update'' @ schema_name schema @ ''Response''"

text \<open>The keys that the end of a round can write.\<close>

definition response_names :: "processed_schema \<Rightarrow> string set" where
  "response_names schema =
     {response_schema_name schema, create_schema_name schema, get_schema_name schema,
      update_schema_name schema}"

text \<open>The keys that a round writes: the schema and its response schemas.\<close>

definition emitted_names :: "processed_schema \<Rightarrow> string set" where
  "emitted_names schema =
     {schema_name schema, response_schema_name schema, get_schema_name schema,
      update_schema_name schema}
     \<union> (if supports_create schema then {create_schema_name schema} else {})"

text \<open>
  The end of a round: the list response, the create response when the schema supports
  create, the get response and the update response.
\<close>

definition add_response_schemas :: "processed_schema \<Rightarrow> pydict \<Rightarrow> pydict" where
  "add_response_schemas schema schemas_data =
     (let d1 = AList.update (response_schema_name schema) (list_response schema) schemas_data;
          d2 = (if supports_create schema
                then AList.update (create_schema_name schema) (create_response schema) d1
                else d1);
          d3 = AList.update (get_schema_name schema) (get_response schema) d2
      in AList.update (update_schema_name schema) (update_response schema) d3)"

text \<open>One round of the loop over the schemas, and the whole function.\<close>

definition emit_schema ::
  "generator \<Rightarrow> processed_schema \<Rightarrow> emitter_state \<Rightarrow> error + emitter_state" where
  "emit_schema self schema st =
     (case emit_primary self schema (fst st) of
        Inl e \<Rightarrow> Inl e
      | Inr schemas_data \<Rightarrow>
          (case expand_nested_schemas self (nested_schemas schema) (schemas_data, snd st) of
             Inl e \<Rightarrow> Inl e
           | Inr st' \<Rightarrow> Inr (add_response_schemas schema (fst st'), snd st')))"

fun emit_schemas ::
  "generator \<Rightarrow> processed_schema list \<Rightarrow> emitter_state \<Rightarrow> error + emitter_state" where
  "emit_schemas self [] st = Inr st"
| "emit_schemas self (schema # rest) st =
     (case emit_schema self schema st of
        Inl e \<Rightarrow> Inl e
      | Inr st' \<Rightarrow> emit_schemas self rest st')"

text \<open>
  \<open>generate_schemas_for_objects\<close> resets \<open>created_schemas\<close>, starts from the schema of
  the extensible attributes and returns \<open>schemas_data\<close>; the final \<open>created_schemas\<close>
  stays in the generator object.
\<close>

definition generate_schemas_for_objects ::
  "generator \<Rightarrow> processed_schema list \<Rightarrow> error + emitter_state" where
  "generate_schemas_for_objects self schemas =
     emit_schemas self schemas ([(''ExtAttrs'', generate_extensible_attributes_schema)], {})"

text \<open>Reading the schemas map: a property of a schema.\<close>

definition schema_property :: "pydict \<Rightarrow> string \<Rightarrow> string \<Rightarrow> json option" where
  "schema_property schemas_data schema_name' field_name =
     (case map_of schemas_data schema_name' of
        Some (JObj obj) \<Rightarrow>
          (case map_of obj ''properties'' of
             Some (JObj props) \<Rightarrow> map_of props field_name
           | _ \<Rightarrow> None)
      | _ \<Rightarrow> None)"

subsection \<open>Invariants of the schemas map\<close>

text \<open>A property definition does not hold \<open>$ref\<close> and \<open>type\<close> together.\<close>

definition ref_type_exclusive :: "pydict \<Rightarrow> bool" where
  "ref_type_exclusive p = (\<not> (has_key p ''$ref'' \<and> has_key p ''type''))"

text \<open>Every property definition under \<open>properties\<close> of a schema is so.\<close>

definition properties_exclusive :: "json \<Rightarrow> bool" where
  "properties_exclusive v =
     (case v of
        JObj obj \<Rightarrow>
          (case map_of obj ''properties'' of
             Some (JObj props) \<Rightarrow>
               list_all (\<lambda>(k, p). case p of JObj d \<Rightarrow> ref_type_exclusive d | _ \<Rightarrow> True) props
           | _ \<Rightarrow> True)
      | _ \<Rightarrow> True)"

definition all_properties_exclusive :: "pydict \<Rightarrow> bool" where
  "all_properties_exclusive schemas_data = list_all (\<lambda>(k, v). properties_exclusive v) schemas_data"

text \<open>The entry of a schema name is an object with an object under \<open>properties\<close>.\<close>

definition has_properties :: "pydict \<Rightarrow> string \<Rightarrow> bool" where
  "has_properties schemas_data schema_name' =
     (case map_of schemas_data schema_name' of
        Some (JObj obj) \<Rightarrow>
          (case map_of obj ''properties'' of Some (JObj props) \<Rightarrow> True | _ \<Rightarrow> False)
      | _ \<Rightarrow> False)"

text \<open>
  What a run of the nested expansion keeps from the state \<open>st\<close> to the state \<open>st'\<close>:
  the set of created names grows, entries with properties stay so, exclusive properties
  stay so, the keys stay distinct, the only entries that change are those of the
  names in \<open>M\<close> and of the names created in between, no key is removed, and every
  name created in between is a key.
\<close>

definition grows :: "string set \<Rightarrow> emitter_state \<Rightarrow> emitter_state \<Rightarrow> bool" where
  "grows M st st' =
     (snd st \<subseteq> snd st'
      \<and> (\<forall>k. has_properties (fst st) k \<longrightarrow> has_properties (fst st') k)
      \<and> (all_properties_exclusive (fst st) \<longrightarrow> all_properties_exclusive (fst st'))
      \<and> (distinct (map fst (fst st)) \<longrightarrow> distinct (map fst (fst st')))
      \<and> (\<forall>k. k \<notin> M \<and> k \<notin> snd st' - snd st \<longrightarrow> map_of (fst st') k = map_of (fst st) k)
      \<and> fst ` set (fst st) \<subseteq> fst ` set (fst st')
      \<and> snd st' - snd st \<subseteq> fst ` set (fst st'))"

section \<open>Example inputs\<close>

definition example_field :: "string \<Rightarrow> raw_field" where
  "example_field s = RawField (Some ''comment'') (Some s) None None None None None None None"

definition example_generator :: generator where
  "example_generator =
     \<lparr> objects = [], object_to_group = [(''record:a'', ''dns'')],
       pascal_case_schemas = True, include_examples = True, func_call_fields = [] \<rparr>"

text \<open>A field descriptor with no name, as the vendor could send it.\<close>

definition nameless_field :: raw_field where
  "nameless_field = RawField None (Some ''rw'') (Some [''string'']) None None None None None None"

definition schema_with_nameless_field :: raw_schema where
  "schema_with_nameless_field =
     RawSchema (Some ''record:a'') (Some [example_field ''rw'', nameless_field]) None None"



definition schema_restricting_create :: raw_schema where
  "schema_restricting_create =
     RawSchema (Some ''record:a'') (Some [example_field ''r''])
       (Some (RestrictionList [''create''])) None"

text \<open>A nested schema with a named and a nameless field.\<close>

definition nested_example :: raw_schema where
  "nested_example = RawSchema None (Some [example_field ''rw'', nameless_field]) None None"

text \<open>
  Two object types, \<open>grid:member\<close> and \<open>grid\<close>; the field \<open>member\<close> of \<open>grid\<close>
  carries a nested schema with a field \<open>_ref\<close>. The name generated for that nested
  schema, \<open>GridMember\<close>, is the schema name of \<open>grid:member\<close>.
\<close>

definition member_schema :: raw_schema where
  "member_schema = RawSchema (Some ''grid:member'') (Some [example_field ''rw'']) None None"

definition grid_schema :: raw_schema where
  "grid_schema =
     RawSchema (Some ''grid'')
       (Some [RawField (Some ''member'') (Some ''rw'') (Some [''setting'']) None None None
                None None
                (Some (RawSchema None
                         (Some [RawField (Some ''_ref'') (Some ''r'') (Some [''int''])
                                  None None None None None None])
                         None None))])
       None None"



text \<open>A schema with a raw field named \<open>_ref\<close>.\<close>

definition schema_with_ref_field :: raw_schema where
  "schema_with_ref_field =
     RawSchema (Some ''record:a'')
       (Some [RawField (Some ''_ref'') (Some ''r'') (Some [''int'']) None None None None
                None None,
              example_field ''rw''])
       None None"


text \<open>The normalized forms of these examples (lemmas below relate them to the raw forms).\<close>

definition host_ipv4addrs :: processed_field where
  "host_ipv4addrs =
     \<lparr>field_type = ''array'', original_type = ''record:host_ipv4addr'', description = [],
      readonly = False, writeonly = False, enum = None, parent_property = None,
      name = ''ipv4addrs'', deleteonly = False, supports_filtering = False,
      searchable_by = [], required = False, is_array = True, supports = ''rw'',
      nested_schema = Some nested_example,
      nested_schema_name = Some ''RecordHostIpv4addrs''\<rparr>"




definition ref_field_processed :: processed_schema where
  "ref_field_processed =
     \<lparr>object_type = ''record:a'', object_name = ''record_a'',
      schema_name = ''RecordA'', response_schema_name = ''ListRecordAResponse'',
      schema_fields =
        [(''_ref'',
          \<lparr>field_type = ''int'', original_type = ''int'', description = [],
           readonly = True, writeonly = False, enum = None, parent_property = None,
           name = ''_ref'', deleteonly = False, supports_filtering = False,
           searchable_by = [], required = False, is_array = False, supports = ''r'',
           nested_schema = None, nested_schema_name = None\<rparr>),
         (''comment'',
          \<lparr>field_type = ''string'', original_type = ''string'', description = [],
           readonly = False, writeonly = False, enum = None, parent_property = None,
           name = ''comment'', deleteonly = False, supports_filtering = False,
           searchable_by = [], required = False, is_array = False, supports = ''rw'',
           nested_schema = None, nested_schema_name = None\<rparr>)],
      filtering_fields = [], required_fields = [], nested_schemas = [],
      supports_create = True, supports_delete = True, supports_modify = True,
      group = ''dns'', schema_version = ''2'', restrictions = []\<rparr>"

text \<open>The normalized form of the schema that restricts \<open>create\<close>.\<close>

definition restricted_processed :: processed_schema where
  "restricted_processed =
     \<lparr>object_type = ''record:a'', object_name = ''record_a'',
      schema_name = ''RecordA'', response_schema_name = ''ListRecordAResponse'',
      schema_fields =
        [(''comment'',
          \<lparr>field_type = ''string'', original_type = ''string'',
           description = [], readonly = True, writeonly = False,
           enum = None, parent_property = None, name = ''comment'',
           deleteonly = False, supports_filtering = False,
           searchable_by = [], required = False, is_array = False,
           supports = ''r'', nested_schema = None, nested_schema_name = None\<rparr>)],
      filtering_fields = [], required_fields = [], nested_schemas = [],
      supports_create = False, supports_delete = True,
      supports_modify = False, group = ''dns'', schema_version = ''2'',
      restrictions = [''create'']\<rparr>"


section \<open>Properties of the naming function\<close>

lemma split_on_not_Nil: "split_on sep s \<noteq> []"
  by (induction s) (auto split: list.splits)

lemma split_on_append: "split_on sep (u @ sep # v) = split_on sep u @ split_on sep v"
  by (induction u) (auto simp: split_on_not_Nil split: list.splits)

lemma split_on_no_sep: "sep \<notin> set w \<Longrightarrow> split_on sep w = [w]"
  by (induction w) auto

lemma replace_char_idem:
  "a \<noteq> b \<Longrightarrow> replace_char a b (replace_char a b s) = replace_char a b s"
  by (induction s) (auto simp: replace_char_def)

lemma replace_char_absent: "a \<notin> set s \<Longrightarrow> replace_char a b s = s"
  by (induction s) (auto simp: replace_char_def)

lemma replace_char_Nil: "replace_char a b s = [] \<longleftrightarrow> s = []"
  by (simp add: replace_char_def)

lemma to_pascal_case_replace:
  "to_pascal_case (replace_char CHR '':'' CHR ''_'' s) = to_pascal_case s"
  by (simp add: to_pascal_case_def replace_char_idem replace_char_Nil)

lemma to_pascal_case_words:
  "to_pascal_case s =
     concat (map capitalize (split_on CHR ''_'' (replace_char CHR '':'' CHR ''_'' s)))"
  by (cases s) (auto simp: to_pascal_case_def replace_char_def)

lemma to_pascal_case_sep:
  "sep = CHR '':'' \<or> sep = CHR ''_'' \<Longrightarrow>
   to_pascal_case (u @ sep # v) = to_pascal_case u @ to_pascal_case v"
  by (auto simp: to_pascal_case_words replace_char_def split_on_append)

lemma to_pascal_case_word:
  assumes "CHR '':'' \<notin> set w" and "CHR ''_'' \<notin> set w"
  shows "to_pascal_case w = capitalize w"
proof -
  from assms have "replace_char CHR '':'' CHR ''_'' w = w"
    by (simp add: replace_char_absent)
  with assms show ?thesis
    by (simp add: to_pascal_case_words split_on_no_sep)
qed

text \<open>
  C5. \<open>to_pascal_case\<close> replaces every colon by an underscore first, then splits at the
  underscores, capitalizes each piece and joins the pieces. So colons and underscores
  separate words alike: the name of \<open>u:v\<close> and of \<open>u_v\<close> is the name of \<open>u\<close> followed
  by the name of \<open>v\<close>, and a word without separators is capitalized as a whole. In
  particular \<open>dns_record\<close> becomes \<open>DnsRecord\<close>, and \<open>a:aaaa\<close> becomes \<open>AAaaa\<close> by way
  of \<open>a_aaaa\<close>.
\<close>

theorem to_pascal_case_colon_then_split:
  "to_pascal_case ''dns_record'' = ''DnsRecord''
   \<and> to_pascal_case ''a:aaaa'' = ''AAaaa''
   \<and> replace_char CHR '':'' CHR ''_'' ''a:aaaa'' = ''a_aaaa''
   \<and> to_pascal_case s =
       concat (map capitalize (split_on CHR ''_'' (replace_char CHR '':'' CHR ''_'' s)))
   \<and> to_pascal_case (replace_char CHR '':'' CHR ''_'' s) = to_pascal_case s
   \<and> to_pascal_case (u @ CHR '':'' # v) = to_pascal_case u @ to_pascal_case v
   \<and> to_pascal_case (u @ CHR ''_'' # v) = to_pascal_case u @ to_pascal_case v
   \<and> (CHR '':'' \<notin> set w \<and> CHR ''_'' \<notin> set w \<longrightarrow> to_pascal_case w = capitalize w)"
proof -
  have "to_pascal_case ''dns_record'' = ''DnsRecord''" by code_simp
  moreover have "to_pascal_case ''a:aaaa'' = ''AAaaa''" by code_simp
  moreover have "replace_char CHR '':'' CHR ''_'' ''a:aaaa'' = ''a_aaaa''" by code_simp
  ultimately show ?thesis
    using to_pascal_case_words [of s] to_pascal_case_replace [of s]
      to_pascal_case_sep [of "CHR '':''" u v] to_pascal_case_sep [of "CHR ''_''" u v]
      to_pascal_case_word [of w]
    by simp
qed

theorem to_pascal_case_colon_then_split_witness:
  "to_pascal_case ''Grid'' = capitalize ''Grid'' \<and> capitalize ''Grid'' = ''Grid''
   \<and> to_pascal_case ''record:a'' = to_pascal_case ''record'' @ to_pascal_case ''a''
   \<and> to_pascal_case ''record:a'' = ''RecordA''"
proof -
  have 1: "to_pascal_case ''Grid'' = capitalize ''Grid''"
    using to_pascal_case_colon_then_split [of "[]" "[]" "[]" "''Grid''"] by simp
  have 2: "to_pascal_case (''record'' @ CHR '':'' # ''a'') =
           to_pascal_case ''record'' @ to_pascal_case ''a''"
    using to_pascal_case_colon_then_split [of "[]" "''record''" "''a''" "[]"] by blast
  have 3: "capitalize ''Grid'' = ''Grid''" by code_simp
  have 4: "to_pascal_case ''record:a'' = ''RecordA''" by code_simp
  from 1 2 3 4 show ?thesis by simp
qed

section \<open>Properties of the Field Transformer\<close>

lemma map_of_cond_update:
  "map_of (if c then AList.update k v p else p) k' =
     (if c \<and> k' = k then Some v else map_of p k')"
  by (simp add: AList.update_conv')

lemma map_of_update_eq:
  "map_of (AList.update k v p) k' = (if k' = k then Some v else map_of p k')"
  by (simp add: AList.update_conv')

lemma map_of_case_update:
  "map_of (case x of None \<Rightarrow> p | Some y \<Rightarrow> AList.update k (f y) p) k' =
     (case x of None \<Rightarrow> map_of p k' | Some y \<Rightarrow> if k' = k then Some (f y) else map_of p k')"
  by (simp add: AList.update_conv' split: option.split)

lemmas convert_lookup = map_of_cond_update map_of_case_update map_of_update_eq

lemma convert_readOnly:
  "map_of (convert_field_type_to_openapi fd) ''readOnly'' =
     (if readonly fd then Some (JBool True) else None)"
  unfolding convert_field_type_to_openapi_def Let_def
  by (simp only: convert_lookup) (simp split: option.split)

lemma convert_writeOnly:
  "map_of (convert_field_type_to_openapi fd) ''writeOnly'' =
     (if writeonly fd then Some (JBool True) else None)"
  unfolding convert_field_type_to_openapi_def Let_def
  by (simp only: convert_lookup) (simp split: option.split)

lemma convert_type:
  "map_of (convert_field_type_to_openapi fd) ''type'' =
     Some (JStr (case map_of type_mapping (field_type fd) of
                   Some t \<Rightarrow> t
                 | None \<Rightarrow> if parent_property fd = Some ''is_array'' then ''string''
                            else ''object''))"
  unfolding convert_field_type_to_openapi_def Let_def
  by (simp only: convert_lookup) (simp split: option.split)

lemma convert_enum:
  "map_of (convert_field_type_to_openapi fd) ''enum'' =
     (if truthy_list (enum fd) then Some (json_strings (the (enum fd)))
      else if map_of type_mapping (field_type fd) = None \<and> original_type fd \<noteq> []
           then Some (json_strings [original_type fd])
      else None)"
  unfolding convert_field_type_to_openapi_def Let_def
  by (simp only: convert_lookup) (simp split: option.split)

lemma process_field_flags:
  assumes "process_field field = Some pf"
  shows "supports pf = (case raw_supports field of None \<Rightarrow> [] | Some s \<Rightarrow> s)
     \<and> readonly pf = (CHR ''r'' \<in> set (supports pf) \<and> CHR ''w'' \<notin> set (supports pf))
     \<and> writeonly pf = (CHR ''w'' \<in> set (supports pf) \<and> CHR ''r'' \<notin> set (supports pf))
     \<and> deleteonly pf = (CHR ''d'' \<in> set (supports pf) \<and> CHR ''r'' \<notin> set (supports pf)
                          \<and> CHR ''w'' \<notin> set (supports pf))"
  using assms by (auto simp: process_field_def Let_def split: if_splits)

lemma type_mapping_table:
  "map_of type_mapping ''string'' = Some ''string''
   \<and> map_of type_mapping ''uint'' = Some ''integer''
   \<and> map_of type_mapping ''int'' = Some ''integer''
   \<and> map_of type_mapping ''integer'' = Some ''integer''
   \<and> map_of type_mapping ''bool'' = Some ''boolean''
   \<and> map_of type_mapping ''timestamp'' = Some ''integer''
   \<and> map_of type_mapping ''enum'' = Some ''string''
   \<and> map_of type_mapping ''extattr'' = Some ''object''
   \<and> dom (map_of type_mapping) =
       {''string'', ''uint'', ''int'', ''integer'', ''bool'', ''timestamp'', ''enum'',
        ''extattr''}"
  by (auto simp: type_mapping_def split: if_splits)

text \<open>
  C3 (as amended). \<open>convert_field_type_to_openapi\<close> maps the kind through the fixed
  table (string to string; uint, int and integer to integer; bool to boolean; timestamp
  to integer; enum to string; extattr to object, and nothing else is in the table). A
  kind outside the table gives the type \<open>object\<close>, unless the record is a bare
  array-item descriptor (its \<open>parent_property\<close> is \<open>is_array\<close>): then no type is
  forced and the property keeps the type \<open>string\<close> it starts with. The enumeration of
  the property is the field's own \<open>enum\<close> list when that list is not empty; otherwise
  it is the single original vendor type token when the kind is outside the table and
  the original kind is not empty; otherwise the property has no enumeration.
\<close>

theorem convert_type_table_and_enum:
  "map_of (convert_field_type_to_openapi fd) ''type'' =
     Some (JStr (case map_of type_mapping (field_type fd) of
                   Some t \<Rightarrow> t
                 | None \<Rightarrow> if parent_property fd = Some ''is_array'' then ''string''
                            else ''object''))
   \<and> map_of type_mapping ''string'' = Some ''string''
   \<and> map_of type_mapping ''uint'' = Some ''integer''
   \<and> map_of type_mapping ''int'' = Some ''integer''
   \<and> map_of type_mapping ''integer'' = Some ''integer''
   \<and> map_of type_mapping ''bool'' = Some ''boolean''
   \<and> map_of type_mapping ''timestamp'' = Some ''integer''
   \<and> map_of type_mapping ''enum'' = Some ''string''
   \<and> map_of type_mapping ''extattr'' = Some ''object''
   \<and> dom (map_of type_mapping) =
       {''string'', ''uint'', ''int'', ''integer'', ''bool'', ''timestamp'', ''enum'',
        ''extattr''}
   \<and> map_of (convert_field_type_to_openapi fd) ''enum'' =
       (if truthy_list (enum fd) then Some (json_strings (the (enum fd)))
        else if map_of type_mapping (field_type fd) = None \<and> original_type fd \<noteq> []
             then Some (json_strings [original_type fd])
        else None)"
  using convert_type [of fd] convert_enum [of fd] type_mapping_table by simp

text \<open>
  A struct-typed field with two enumeration values, and the item descriptor of an array
  of such structs: the first is an object with the field's enumeration, the second keeps
  the type \<open>string\<close> and documents the vendor type token.
\<close>

theorem convert_type_table_and_enum_witness:
  "map_of (convert_field_type_to_openapi
      \<lparr>field_type = ''awsrte53recordinfo'', original_type = ''awsrte53recordinfo'',
       description = [], readonly = False, writeonly = False,
       enum = Some [''A'', ''B''], parent_property = None\<rparr>) ''type'' = Some (JStr ''object'')
   \<and> map_of (convert_field_type_to_openapi
      \<lparr>field_type = ''awsrte53recordinfo'', original_type = ''awsrte53recordinfo'',
       description = [], readonly = False, writeonly = False,
       enum = Some [''A'', ''B''], parent_property = None\<rparr>) ''enum''
       = Some (JList [JStr ''A'', JStr ''B''])
   \<and> map_of (convert_field_type_to_openapi
      \<lparr>field_type = ''awsrte53recordinfo'', original_type = ''awsrte53recordinfo'',
       description = [], readonly = False, writeonly = False,
       enum = None, parent_property = Some ''is_array''\<rparr>) ''type'' = Some (JStr ''string'')
   \<and> map_of (convert_field_type_to_openapi
      \<lparr>field_type = ''awsrte53recordinfo'', original_type = ''awsrte53recordinfo'',
       description = [], readonly = False, writeonly = False,
       enum = None, parent_property = Some ''is_array''\<rparr>) ''enum''
       = Some (JList [JStr ''awsrte53recordinfo''])"
  using
    convert_type_table_and_enum [of "\<lparr>field_type = ''awsrte53recordinfo'',
       original_type = ''awsrte53recordinfo'', description = [], readonly = False,
       writeonly = False, enum = Some [''A'', ''B''], parent_property = None\<rparr>"]
    convert_type_table_and_enum [of "\<lparr>field_type = ''awsrte53recordinfo'',
       original_type = ''awsrte53recordinfo'', description = [], readonly = False,
       writeonly = False, enum = None, parent_property = Some ''is_array''\<rparr>"]
  by (simp add: type_mapping_def truthy_list_def json_strings_def)

text \<open>
  The claim as the specification states it, that explicit \<open>enum_values\<close> always
  override, fails for an explicit empty list: the raw field below has
  \<open>enum_values = []\<close> and a vendor type outside the table, and the enumeration of its
  property is the vendor type token, not the empty list.
\<close>

theorem empty_enum_values_do_not_override:
  "(case process_field
           (RawField (Some ''aws_info'') (Some ''rw'') (Some [''awsrte53recordinfo''])
              None None None None (Some []) None) of
      None \<Rightarrow> False
    | Some pf \<Rightarrow>
        enum pf = Some []
        \<and> map_of (convert_field_type_to_openapi pf) ''enum''
            = Some (JList [JStr ''awsrte53recordinfo''])
        \<and> map_of (convert_field_type_to_openapi pf) ''enum'' \<noteq> Some (JList []))"
  by (simp add: process_field_def Let_def clean_description_def
      convert_field_type_to_openapi_def type_mapping_def format_mapping_def
      truthy_list_def json_strings_def)

text \<open>
  C4. For a raw field with the operations string \<open>s\<close>, \<open>process_field\<close> marks the field
  read-only iff \<open>r\<close> is in \<open>s\<close> and \<open>w\<close> is not, write-only iff \<open>w\<close> is in \<open>s\<close> and
  \<open>r\<close> is not, delete-only iff \<open>d\<close> is in \<open>s\<close> and neither \<open>r\<close> nor \<open>w\<close> is (no two
  of the three marks hold together; a field with none of them is read-write); and
  \<open>convert_field_type_to_openapi\<close> sets \<open>readOnly\<close> to true exactly for the read-only
  fields and \<open>writeOnly\<close> to true exactly for the write-only fields, and neither key
  otherwise.
\<close>

theorem access_flags_from_supports:
  assumes "process_field field = Some pf"
  shows "supports pf = (case raw_supports field of None \<Rightarrow> [] | Some s \<Rightarrow> s)
     \<and> readonly pf = (CHR ''r'' \<in> set (supports pf) \<and> CHR ''w'' \<notin> set (supports pf))
     \<and> writeonly pf = (CHR ''w'' \<in> set (supports pf) \<and> CHR ''r'' \<notin> set (supports pf))
     \<and> deleteonly pf = (CHR ''d'' \<in> set (supports pf) \<and> CHR ''r'' \<notin> set (supports pf)
                          \<and> CHR ''w'' \<notin> set (supports pf))
     \<and> \<not> (readonly pf \<and> writeonly pf) \<and> \<not> (readonly pf \<and> deleteonly pf)
     \<and> \<not> (writeonly pf \<and> deleteonly pf)
     \<and> map_of (convert_field_type_to_openapi pf) ''readOnly'' =
          (if readonly pf then Some (JBool True) else None)
     \<and> map_of (convert_field_type_to_openapi pf) ''writeOnly'' =
          (if writeonly pf then Some (JBool True) else None)"
proof -
  note flags = process_field_flags [OF assms]
  from flags have "\<not> (readonly pf \<and> writeonly pf)" "\<not> (readonly pf \<and> deleteonly pf)"
    "\<not> (writeonly pf \<and> deleteonly pf)"
    by blast+
  with flags show ?thesis
    by (simp only: convert_readOnly convert_writeOnly) blast
qed

lemma process_example_field:
  "process_field (example_field s) =
     Some \<lparr>field_type = ''string'', original_type = ''string'', description = [],
           readonly = (CHR ''r'' \<in> set s \<and> CHR ''w'' \<notin> set s),
           writeonly = (CHR ''w'' \<in> set s \<and> CHR ''r'' \<notin> set s),
           enum = None, parent_property = None, name = ''comment'',
           deleteonly = (CHR ''d'' \<in> set s \<and> CHR ''r'' \<notin> set s \<and> CHR ''w'' \<notin> set s),
           supports_filtering = False, searchable_by = [], required = False,
           is_array = False, supports = s, nested_schema = None,
           nested_schema_name = None\<rparr>"
  by (simp add: example_field_def process_field_def Let_def clean_description_def)

theorem access_flags_from_supports_witness:
  "(case process_field (example_field ''rd'') of
      None \<Rightarrow> False
    | Some pf \<Rightarrow> readonly pf \<and> map_of (convert_field_type_to_openapi pf) ''readOnly''
                    = Some (JBool True)
                 \<and> map_of (convert_field_type_to_openapi pf) ''writeOnly'' = None)
   \<and> (case process_field (example_field ''w'') of
      None \<Rightarrow> False
    | Some pf \<Rightarrow> writeonly pf \<and> map_of (convert_field_type_to_openapi pf) ''writeOnly''
                    = Some (JBool True)
                 \<and> map_of (convert_field_type_to_openapi pf) ''readOnly'' = None)
   \<and> (case process_field (example_field ''d'') of
      None \<Rightarrow> False
    | Some pf \<Rightarrow> deleteonly pf \<and> map_of (convert_field_type_to_openapi pf) ''writeOnly'' = None
                 \<and> map_of (convert_field_type_to_openapi pf) ''readOnly'' = None)
   \<and> (case process_field (example_field ''rwd'') of
      None \<Rightarrow> False
    | Some pf \<Rightarrow> \<not> readonly pf \<and> \<not> writeonly pf \<and> \<not> deleteonly pf
                 \<and> map_of (convert_field_type_to_openapi pf) ''writeOnly'' = None
                 \<and> map_of (convert_field_type_to_openapi pf) ''readOnly'' = None)"
  using access_flags_from_supports [OF process_example_field [of "''rd''"]]
    access_flags_from_supports [OF process_example_field [of "''w''"]]
    access_flags_from_supports [OF process_example_field [of "''d''"]]
    access_flags_from_supports [OF process_example_field [of "''rwd''"]]
  by (simp add: process_example_field)

section \<open>Properties of the Schema Normalizer\<close>

lemma process_field_None_iff:
  "process_field f = None \<longleftrightarrow> (raw_name f = None \<or> raw_name f = Some [])"
  by (auto simp: process_field_def Let_def split: option.splits)

lemma process_schema_fields_nameless:
  "f \<in> set fs \<Longrightarrow> process_field f = None \<Longrightarrow>
   process_schema_fields t fs acc = Inl TypeError"
proof (induction fs arbitrary: acc)
  case Nil
  then show ?case by simp
next
  case (Cons a fs)
  show ?case
  proof (cases "process_field a")
    case None
    then show ?thesis by simp
  next
    case (Some pf)
    with Cons.prems have "f \<in> set fs" by auto
    with Some Cons.prems show ?thesis
      by (simp add: Cons.IH)
  qed
qed

lemma process_schema_nameless:
  assumes "raw_fields schema = Some fs" and "f \<in> set fs" and "process_field f = None"
  shows "process_schema self (Some schema) ot = Inl TypeError"
  using assms by (simp add: process_schema_def Let_def process_schema_fields_nameless)

text \<open>
  C1. A raw field descriptor whose name is empty or absent makes \<open>process_field\<close>
  return \<open>None\<close>. The claim goes on to say that \<open>process_schema\<close> drops such a field
  and raises nothing; the code does not: the test that skips an unprocessed field is
  commented out in \<open>process_schema\<close>, so the next line subscripts \<open>None\<close> and raises
  \<open>TypeError\<close>, and no normalized schema is returned for the object type. Here the
  code is run on a schema with one named and one nameless field.
\<close>

theorem process_schema_raises_on_nameless_field:
  "process_field nameless_field = None
   \<and> process_schema example_generator (Some schema_with_nameless_field) ''record:a''
       = Inl TypeError"
proof -
  have "raw_fields schema_with_nameless_field = Some [example_field ''rw'', nameless_field]"
    by (simp add: schema_with_nameless_field_def)
  moreover have "process_field nameless_field = None"
    by (simp add: process_field_None_iff nameless_field_def)
  ultimately show ?thesis
    using process_schema_nameless [of schema_with_nameless_field _ nameless_field]
    by simp
qed

lemma process_schema_restrictions:
  assumes "process_schema self (Some schema) ot = Inr (Some s)"
  shows "restrictions s = extract_restrictions (raw_restrictions_of schema)
     \<and> supports_create s = (''create'' \<notin> set (restrictions s))
     \<and> supports_delete s = (''delete'' \<notin> set (restrictions s))"
  using assms
  by (auto simp: process_schema_def Let_def split: sum.splits prod.splits)


lemma process_schema_restricting_create:
  "process_schema example_generator (Some schema_restricting_create) ''record:a'' =
     Inr (Some
       \<lparr>object_type = ''record:a'', object_name = ''record_a'',
        schema_name = ''RecordA'', response_schema_name = ''ListRecordAResponse'',
        schema_fields =
          [(''comment'',
            \<lparr>field_type = ''string'', original_type = ''string'',
             description = [], readonly = True, writeonly = False,
             enum = None, parent_property = None, name = ''comment'',
             deleteonly = False, supports_filtering = False,
             searchable_by = [], required = False, is_array = False,
             supports = ''r'', nested_schema = None, nested_schema_name = None\<rparr>)],
        filtering_fields = [], required_fields = [], nested_schemas = [],
        supports_create = False, supports_delete = True,
        supports_modify = False, group = ''dns'', schema_version = ''2'',
        restrictions = [''create'']\<rparr>)"
proof -
  have "to_pascal_case ''record:a'' = ''RecordA''" by code_simp
  moreover have "map lower_char (replace_char CHR '':'' CHR ''_'' ''record:a'') = ''record_a''"
    by code_simp
  ultimately show ?thesis
    by (simp add: process_schema_def schema_restricting_create_def example_generator_def
        process_example_field extract_restrictions_def add_processed_field_def Let_def)
qed

text \<open>
  C8. When \<open>process_schema\<close> returns a normalized schema, its restriction list is the
  flat list of the raw restrictions: the bare list itself, or the list under the key
  \<open>list\<close> of an object, and the empty list when there are no restrictions or the object
  has no such key. \<open>supports_create\<close> is true iff \<open>create\<close> is not in that list, and
  \<open>supports_delete\<close> is true iff \<open>delete\<close> is not in it.
\<close>

theorem restrictions_decide_create_and_delete:
  assumes "process_schema self (Some schema) ot = Inr (Some s)"
  shows "restrictions s = extract_restrictions (raw_restrictions_of schema)
     \<and> extract_restrictions None = []
     \<and> extract_restrictions (Some (RestrictionList xs)) = xs
     \<and> extract_restrictions (Some (RestrictionDict (Some xs))) = xs
     \<and> extract_restrictions (Some (RestrictionDict None)) = []
     \<and> supports_create s = (''create'' \<notin> set (restrictions s))
     \<and> supports_delete s = (''delete'' \<notin> set (restrictions s))"
  using process_schema_restrictions [OF assms]
  by (simp add: extract_restrictions_def)

text \<open>The restriction list \<open>["create"]\<close>: create is not supported, delete is.\<close>

theorem restrictions_decide_create_and_delete_witness:
  "(case process_schema example_generator (Some schema_restricting_create) ''record:a'' of
      Inr (Some s) \<Rightarrow>
        restrictions s = [''create''] \<and> \<not> supports_create s \<and> supports_delete s
    | _ \<Rightarrow> False)"
  using restrictions_decide_create_and_delete [OF process_schema_restricting_create]
  by (simp add: process_schema_restricting_create)

section \<open>Properties of the Path Emitter\<close>
















section \<open>Properties of the Schema Emitter\<close>

subsection \<open>The response schemas\<close>

lemma response_names_distinct:
  assumes "response_schema_name schema = ''List'' @ schema_name schema @ ''Response''"
  shows "response_schema_name schema \<noteq> create_schema_name schema"
    "response_schema_name schema \<noteq> get_schema_name schema"
    "response_schema_name schema \<noteq> update_schema_name schema"
    "create_schema_name schema \<noteq> get_schema_name schema"
    "create_schema_name schema \<noteq> update_schema_name schema"
    "get_schema_name schema \<noteq> update_schema_name schema"
  using assms
  by (simp_all add: create_schema_name_def get_schema_name_def update_schema_name_def)

lemma process_schema_response_name:
  assumes "process_schema self (Some raw) ot = Inr (Some s)"
  shows "response_schema_name s = ''List'' @ schema_name s @ ''Response''"
  using assms
  by (auto simp: process_schema_def Let_def split: sum.splits prod.splits)

lemma add_response_schemas_lookup:
  assumes "response_schema_name schema = ''List'' @ schema_name schema @ ''Response''"
  shows "map_of (add_response_schemas schema schemas_data) (response_schema_name schema)
           = Some (list_response schema)
     \<and> map_of (add_response_schemas schema schemas_data) (get_schema_name schema)
           = Some (get_response schema)
     \<and> map_of (add_response_schemas schema schemas_data) (update_schema_name schema)
           = Some (update_response schema)
     \<and> map_of (add_response_schemas schema schemas_data) (create_schema_name schema)
           = (if supports_create schema then Some (create_response schema)
              else map_of schemas_data (create_schema_name schema))
     \<and> (k \<noteq> response_schema_name schema \<and> k \<noteq> get_schema_name schema
          \<and> k \<noteq> update_schema_name schema \<and> k \<noteq> create_schema_name schema
        \<longrightarrow> map_of (add_response_schemas schema schemas_data) k = map_of schemas_data k)"
  using response_names_distinct [OF assms]
  unfolding add_response_schemas_def Let_def
  by (simp add: map_of_update_eq map_of_cond_update)

subsection \<open>Property definitions\<close>

lemma convert_no_ref: "map_of (convert_field_type_to_openapi fd) ''$ref'' = None"
  unfolding convert_field_type_to_openapi_def Let_def
  by (simp only: convert_lookup) (simp split: option.split)

lemma convert_has_type: "has_key (convert_field_type_to_openapi fd) ''type''"
  by (simp add: has_key_def convert_type)

lemma add_example_other:
  "k \<noteq> ''example'' \<Longrightarrow> map_of (add_example b n p) k = map_of p k"
  by (simp add: add_example_def map_of_update_eq)

lemma array_items_convert:
  "\<exists>items. array_items (convert_field_type_to_openapi fd) = Inr items"
  by (simp add: array_items_def convert_type)

lemma regular_array_Inr:
  "\<exists>items. regular_array parent fd p
     = Inr (AList.update ''items'' items (AList.update ''type'' (JStr ''array'') p))"
  using array_items_convert [of "item_descriptor fd parent"]
  by (auto simp: regular_array_def)

lemma py_del_type:
  "has_key p ''type'' \<Longrightarrow> py_del ''type'' p = Inr (AList.delete ''type'' p)"
  by (simp add: py_del_def)

lemma map_of_delete_eq:
  "map_of (AList.delete k p) k' = (if k' = k then None else map_of p k')"
  by (simp add: AList.delete_conv')


lemma nested_property_def_nested:
  assumes "nested_schema pf \<noteq> None"
  shows "\<exists>p. nested_property_def self n pf = Inr p
     \<and> (if is_array pf
         then map_of p ''type'' = Some (JStr ''array'')
              \<and> map_of p ''items'' = Some (schema_ref (to_pascal_case (n @ ''_'' @ name pf)))
              \<and> map_of p ''$ref'' = None
         else map_of p ''$ref''
                = Some (JStr (''#/components/schemas/'' @ to_pascal_case (n @ ''_'' @ name pf)))
              \<and> map_of p ''type'' = None)"
proof (cases "is_array pf")
  case True
  with assms show ?thesis
    by (simp add: nested_property_def_def Let_def has_key_def)
next
  case False
  let ?p0 = "add_example (include_examples self) (name pf) (convert_field_type_to_openapi pf)"
  let ?p = "AList.update ''$ref''
              (JStr (''#/components/schemas/'' @ to_pascal_case (n @ ''_'' @ name pf))) ?p0"
  have "has_key ?p ''type''"
    using convert_has_type [of pf] by (simp add: has_key_def map_of_update_eq add_example_other)
  then have "py_del ''type'' ?p = Inr (AList.delete ''type'' ?p)" by (rule py_del_type)
  with False assms show ?thesis
    by (simp add: nested_property_def_def Let_def has_key_def map_of_update_eq map_of_delete_eq)
qed

lemma nested_property_def_plain:
  assumes "nested_schema pf = None"
  shows "\<exists>p. nested_property_def self n pf = Inr p \<and> map_of p ''$ref'' = None"
proof -
  let ?p0 = "add_example (include_examples self) (name pf) (convert_field_type_to_openapi pf)"
  have p0: "map_of ?p0 ''$ref'' = None"
    by (simp add: add_example_other convert_no_ref)
  obtain items where ra: "regular_array None pf ?p0
     = Inr (AList.update ''items'' items (AList.update ''type'' (JStr ''array'') ?p0))"
    using regular_array_Inr by blast
  show ?thesis
    using assms p0 ra
    by (auto simp: nested_property_def_def Let_def has_key_def map_of_update_eq schema_ref_def
        split: option.splits)
qed

lemma nested_property_def_total:
  "\<exists>p. nested_property_def self n pf = Inr p \<and> ref_type_exclusive p"
proof (cases "nested_schema pf")
  case None
  from nested_property_def_plain [OF None, of self n] show ?thesis
    by (auto simp: ref_type_exclusive_def has_key_def)
next
  case (Some sch)
  then have "nested_schema pf \<noteq> None" by simp
  from nested_property_def_nested [OF this, of self n] show ?thesis
    by (auto simp: ref_type_exclusive_def has_key_def split: if_splits)
qed


lemma main_property_def_ref: "main_property_def self schema ''_ref'' fd = Inr None"
  by (simp add: main_property_def_def Let_def)

lemma add_example_ref_only:
  "add_example b n [(''$ref'', v)] = [(''$ref'', v)]"
  by (simp add: add_example_def)

lemma main_property_def_cases:
  assumes "field_name \<noteq> ''_ref''"
  shows "\<exists>p. main_property_def self schema field_name fd = Inr (Some p)
     \<and> (case nonempty_name (nested_schema_name fd) of
           Some c \<Rightarrow>
             if is_array fd
             then map_of p ''type'' = Some (JStr ''array'')
                  \<and> map_of p ''items'' = Some (schema_ref c)
                  \<and> map_of p ''$ref'' = None
             else p = [(''$ref'', JStr (''#/components/schemas/'' @ c))]
         | None \<Rightarrow> map_of p ''$ref'' = None)"
proof -
  let ?p0 = "convert_field_type_to_openapi fd"
  let ?special = "case map_of (func_call_fields self) (object_type schema) of
                    None \<Rightarrow> [] | Some l \<Rightarrow> l"
  let ?step1 = "if field_name = ''extattrs''
                   then Inr (AList.update ''additionalProperties'' (schema_ref ''ExtAttrs'') ?p0)
                 else if field_name \<in> set ?special
                   then (case py_del ''type'' ?p0 of
                           Inl e \<Rightarrow> Inl e
                         | Inr p \<Rightarrow>
                             Inr (AList.update ''oneOf''
                                    (func_call_union schema field_name fd) p))
                 else Inr ?p0"
  have "\<exists>p1. ?step1 = Inr p1 \<and> map_of p1 ''$ref'' = None"
    by (simp add: py_del_type [OF convert_has_type] map_of_update_eq map_of_delete_eq
        convert_no_ref)
  then obtain p1 where p1: "?step1 = Inr p1" and noref: "map_of p1 ''$ref'' = None"
    by blast
  obtain items where ra: "regular_array (Some ''is_array'') fd p1
     = Inr (AList.update ''items'' items (AList.update ''type'' (JStr ''array'') p1))"
    using regular_array_Inr by blast
  have unfold: "main_property_def self schema field_name fd =
      (case (case nonempty_name (nested_schema_name fd) of
                        Some n \<Rightarrow>
                          if is_array fd
                          then Inr (AList.update ''items'' (schema_ref n)
                                      (AList.update ''type'' (JStr ''array'') p1))
                          else Inr [(''$ref'', JStr (''#/components/schemas/'' @ n))]
                      | None \<Rightarrow>
                          if is_array fd
                          then regular_array (Some ''is_array'') fd p1
                          else Inr p1) of
                  Inl e \<Rightarrow> Inl e
                | Inr p2 \<Rightarrow> Inr (Some (add_example (include_examples self) field_name p2)))"
    using assms p1 unfolding main_property_def_def Let_def by simp
  show ?thesis
    unfolding unfold using noref ra
    by (auto simp: add_example_other add_example_ref_only map_of_update_eq split: option.splits)
qed

lemma main_property_def_exclusive:
  assumes "main_property_def self schema field_name fd = Inr (Some p)"
  shows "ref_type_exclusive p"
proof -
  from assms have ne: "field_name \<noteq> ''_ref''"
    by (auto simp: main_property_def_ref)
  from main_property_def_cases [OF ne, of self schema fd] assms
  show ?thesis
    by (auto simp: ref_type_exclusive_def has_key_def split: option.splits if_splits)
qed


subsection \<open>The state of the nested expansion\<close>

lemma list_all_update:
  "list_all (\<lambda>(k, v). P v) al \<Longrightarrow> P v \<Longrightarrow> list_all (\<lambda>(k, v). P v) (AList.update k v al)"
  by (induction al) auto

lemma list_all_map_of:
  "list_all (\<lambda>(k, v). P v) al \<Longrightarrow> map_of al k = Some v \<Longrightarrow> P v"
  by (auto simp: list_all_iff dest: map_of_SomeD)

lemma has_properties_update:
  "has_properties (AList.update n v sd) k =
     (if k = n then (case v of JObj obj \<Rightarrow>
          (case map_of obj ''properties'' of Some (JObj props) \<Rightarrow> True | _ \<Rightarrow> False)
        | _ \<Rightarrow> False)
      else has_properties sd k)"
  by (simp add: has_properties_def map_of_update_eq)

lemma has_properties_iff:
  "has_properties sd n \<longleftrightarrow>
     (\<exists>obj props. map_of sd n = Some (JObj obj) \<and> map_of obj ''properties'' = Some (JObj props))"
proof -
  have inner: "(case v of Some (JObj props) \<Rightarrow> True | _ \<Rightarrow> False)
                 = (\<exists>props. v = Some (JObj props))" for v :: "json option"
  proof (cases v)
    case None
    then show ?thesis by simp
  next
    case (Some w)
    then show ?thesis by (cases w) simp_all
  qed
  show ?thesis
  proof (cases "map_of sd n")
    case None
    then show ?thesis by (simp add: has_properties_def)
  next
    case (Some w)
    then show ?thesis by (cases w) (simp_all add: has_properties_def inner)
  qed
qed

lemma set_property_total:
  "has_properties sd n \<Longrightarrow> \<exists>sd'. set_property n f p sd = Inr sd'"
  by (auto simp: has_properties_iff set_property_def)

lemma set_property_Inr:
  assumes "set_property n f p sd = Inr sd'"
  obtains obj props where "map_of sd n = Some (JObj obj)"
    and "map_of obj ''properties'' = Some (JObj props)"
    and "sd' = AList.update n
                (JObj (AList.update ''properties'' (JObj (AList.update f (JObj p) props)) obj)) sd"
proof (cases "map_of sd n")
  case None
  with assms show ?thesis by (simp add: set_property_def)
next
  case (Some v)
  show ?thesis
  proof (cases v)
    case (JObj obj)
    show ?thesis
    proof (cases "map_of obj ''properties''")
      case None
      with Some JObj assms show ?thesis by (simp add: set_property_def)
    next
      case inner: (Some w)
      show ?thesis
      proof (cases w)
        case props: (JObj props)
        with Some JObj inner assms that show ?thesis
          by (simp add: set_property_def)
      qed (use Some JObj inner assms in \<open>simp_all add: set_property_def\<close>)
    qed
  qed (use Some assms in \<open>simp_all add: set_property_def\<close>)
qed

lemma set_property_grows:
  assumes "set_property n f p sd = Inr sd'" and "ref_type_exclusive p"
  shows "grows {n} (sd, cs) (sd', cs)"
proof -
  from assms(1) obtain obj props where
    obj: "map_of sd n = Some (JObj obj)"
    and props: "map_of obj ''properties'' = Some (JObj props)"
    and sd': "sd' = AList.update n
                (JObj (AList.update ''properties'' (JObj (AList.update f (JObj p) props)) obj)) sd"
    by (rule set_property_Inr)
  have hp: "\<forall>k. has_properties sd k \<longrightarrow> has_properties sd' k"
    by (simp add: sd' has_properties_update map_of_update_eq)
  have ex: "all_properties_exclusive sd \<longrightarrow> all_properties_exclusive sd'"
  proof
    assume a: "all_properties_exclusive sd"
    then have "properties_exclusive (JObj obj)"
      unfolding all_properties_exclusive_def using obj by (rule list_all_map_of)
    with props have "list_all (\<lambda>(k, p). case p of JObj d \<Rightarrow> ref_type_exclusive d | _ \<Rightarrow> True) props"
      by (simp add: properties_exclusive_def)
    then have "list_all (\<lambda>(k, p). case p of JObj d \<Rightarrow> ref_type_exclusive d | _ \<Rightarrow> True)
                 (AList.update f (JObj p) props)"
      using assms(2) by (intro list_all_update) simp_all
    then have "properties_exclusive
        (JObj (AList.update ''properties'' (JObj (AList.update f (JObj p) props)) obj))"
      by (simp add: properties_exclusive_def map_of_update_eq)
    with a show "all_properties_exclusive sd'"
      unfolding all_properties_exclusive_def sd' by (intro list_all_update)
  qed
  have di: "distinct (map fst sd) \<longrightarrow> distinct (map fst sd')"
    by (simp add: sd' AList.distinct_update)
  have un: "\<forall>k. k \<notin> {n} \<and> k \<notin> cs - cs \<longrightarrow> map_of sd' k = map_of sd k"
    by (simp add: sd' map_of_update_eq)
  have ks: "fst ` set sd \<subseteq> fst ` set sd'"
    by (auto simp: sd' AList.dom_update)
  from hp ex di un ks show ?thesis by (simp add: grows_def)
qed

lemma grows_refl: "grows M st st"
  by (simp add: grows_def)

lemma grows_mono: "grows M st st' \<Longrightarrow> M \<subseteq> N \<Longrightarrow> grows N st st'"
  by (auto simp: grows_def)

lemma grows_trans:
  assumes "grows M a b" and "grows M b c"
  shows "grows M a c"
proof -
  have "\<forall>k. k \<notin> M \<and> k \<notin> snd c - snd a \<longrightarrow> map_of (fst c) k = map_of (fst a) k"
  proof (intro allI impI)
    fix k assume k: "k \<notin> M \<and> k \<notin> snd c - snd a"
    from assms have sub: "snd a \<subseteq> snd b" "snd b \<subseteq> snd c" by (simp_all add: grows_def)
    with k have "k \<notin> snd b - snd a" "k \<notin> snd c - snd b" by auto
    with k assms show "map_of (fst c) k = map_of (fst a) k"
      by (simp add: grows_def)
  qed
  moreover from assms have keys: "fst ` set (fst a) \<subseteq> fst ` set (fst b)"
    "fst ` set (fst b) \<subseteq> fst ` set (fst c)"
    by (simp_all add: grows_def)
  then have "fst ` set (fst a) \<subseteq> fst ` set (fst c)" by (rule subset_trans)
  moreover have "snd c - snd a \<subseteq> fst ` set (fst c)"
  proof
    fix x assume x: "x \<in> snd c - snd a"
    from assms have new: "snd b - snd a \<subseteq> fst ` set (fst b)"
      "snd c - snd b \<subseteq> fst ` set (fst c)"
      by (simp_all add: grows_def)
    show "x \<in> fst ` set (fst c)"
    proof (cases "x \<in> snd b")
      case True
      with x new(1) keys(2) show ?thesis by blast
    next
      case False
      with x new(2) show ?thesis by blast
    qed
  qed
  moreover from assms have "snd a \<subseteq> snd c"
    "\<forall>k. has_properties (fst a) k \<longrightarrow> has_properties (fst c) k"
    "all_properties_exclusive (fst a) \<longrightarrow> all_properties_exclusive (fst c)"
    "distinct (map fst (fst a)) \<longrightarrow> distinct (map fst (fst c))"
    by (auto simp: grows_def)
  ultimately show ?thesis by (simp add: grows_def)
qed

lemma grows_create:
  assumes "n \<notin> snd st"
    and "grows {n} (AList.update n empty_object_schema (fst st), insert n (snd st)) st'"
  shows "grows {} st st'" and "n \<in> snd st'"
proof -
  let ?st1 = "(AList.update n empty_object_schema (fst st), insert n (snd st))"
  from assms(2) show n: "n \<in> snd st'" by (auto simp: grows_def)
  have hp1: "\<forall>k. has_properties (fst st) k \<longrightarrow> has_properties (fst ?st1) k"
    by (simp add: has_properties_update empty_object_schema_def)
  have ex1: "all_properties_exclusive (fst st) \<longrightarrow> all_properties_exclusive (fst ?st1)"
    unfolding all_properties_exclusive_def
    by (auto intro!: list_all_update simp: properties_exclusive_def empty_object_schema_def)
  have di1: "distinct (map fst (fst st)) \<longrightarrow> distinct (map fst (fst ?st1))"
    by (simp add: AList.distinct_update)
  have un: "\<forall>k. k \<notin> {} \<and> k \<notin> snd st' - snd st \<longrightarrow> map_of (fst st') k = map_of (fst st) k"
  proof (intro allI impI)
    fix k assume k: "k \<notin> {} \<and> k \<notin> snd st' - snd st"
    with n assms(1) have kn: "k \<noteq> n" by auto
    from k have "k \<notin> snd st' - snd ?st1" by auto
    with kn assms(2) have "map_of (fst st') k = map_of (fst ?st1) k"
      by (simp add: grows_def)
    with kn show "map_of (fst st') k = map_of (fst st) k"
      by (simp add: map_of_update_eq)
  qed
  have k1: "fst ` set (fst st) \<subseteq> fst ` set (fst ?st1)"
    by (auto simp: AList.dom_update)
  from assms(2) have k2: "fst ` set (fst ?st1) \<subseteq> fst ` set (fst st')"
    and new: "snd st' - snd ?st1 \<subseteq> fst ` set (fst st')"
    by (simp_all add: grows_def)
  from k1 k2 have keys: "fst ` set (fst st) \<subseteq> fst ` set (fst st')"
    by (rule subset_trans)
  have "n \<in> fst ` set (fst ?st1)" by (simp add: AList.dom_update)
  with k2 have "n \<in> fst ` set (fst st')" by blast
  with new have created: "snd st' - snd st \<subseteq> fst ` set (fst st')" by auto
  from assms(2) have "snd st \<subseteq> snd st'"
    "\<forall>k. has_properties (fst ?st1) k \<longrightarrow> has_properties (fst st') k"
    "all_properties_exclusive (fst ?st1) \<longrightarrow> all_properties_exclusive (fst st')"
    "distinct (map fst (fst ?st1)) \<longrightarrow> distinct (map fst (fst st'))"
    by (auto simp: grows_def)
  with hp1 ex1 di1 un keys created show "grows {} st st'"
    unfolding grows_def by blast
qed

declare process_nested_schema_fields.simps [simp del]

lemma nested_expansion_grows:
  shows "\<exists>st'. process_nested_schema_fields self n s st = Inr st' \<and> grows {} st st'
               \<and> n \<in> snd st'"
    and "has_properties (fst st) n \<Longrightarrow>
           \<exists>st'. nested_fields_loop self n fs st = Inr st' \<and> grows {n} st st'"
proof (induction self n s st and self n fs st
    rule: process_nested_schema_fields_nested_fields_loop.induct)
  case (1 self schema_name' schema_data st)
  show ?case
  proof (cases "schema_name' \<in> snd st")
    case True
    then show ?thesis
      by (simp add: process_nested_schema_fields.simps grows_refl)
  next
    case False
    let ?st1 = "(AList.update schema_name' empty_object_schema (fst st),
                 insert schema_name' (snd st))"
    have "has_properties (fst ?st1) schema_name'"
      by (simp add: has_properties_update empty_object_schema_def)
    from "1.IH" [OF False this] obtain st' where
      run: "nested_fields_loop self schema_name'
              (case raw_fields schema_data of None \<Rightarrow> [] | Some fs \<Rightarrow> fs) ?st1 = Inr st'"
      and g: "grows {schema_name'} ?st1 st'"
      by blast
    from False run have "process_nested_schema_fields self schema_name' schema_data st = Inr st'"
      by (simp add: process_nested_schema_fields.simps)
    with grows_create [OF False g] show ?thesis by blast
  qed
next
  case (2 self schema_name' st)
  then show ?case by (simp add: grows_refl)
next
  case (3 self schema_name' field rest st)
  note hp = "3.prems"
  show ?case
  proof (cases "process_field field")
    case None
    with "3.IH"(1) [OF None hp] show ?thesis by simp
  next
    case (Some pf)
    obtain pd where pd: "nested_property_def self schema_name' pf = Inr pd"
      and ex: "ref_type_exclusive pd"
      using nested_property_def_total by blast
    have "\<exists>st1. (case nested_schema pf of
                   None \<Rightarrow> Inr st
                 | Some sch \<Rightarrow>
                     process_nested_schema_fields self
                       (to_pascal_case (schema_name' @ ''_'' @ name pf)) sch st) = Inr st1
               \<and> grows {} st st1"
    proof (cases "nested_schema pf")
      case None
      then show ?thesis by (simp add: grows_refl)
    next
      case inner: (Some sch)
      from "3.IH"(2) [OF Some pd inner] inner show ?thesis by auto
    qed
    then obtain st1 where
      rec: "(case nested_schema pf of
               None \<Rightarrow> Inr st
             | Some sch \<Rightarrow>
                 process_nested_schema_fields self
                   (to_pascal_case (schema_name' @ ''_'' @ name pf)) sch st) = Inr st1"
      and g1: "grows {} st st1"
      by blast
    from g1 hp have hp1: "has_properties (fst st1) schema_name'"
      by (simp add: grows_def)
    then obtain sd2 where
      sp: "set_property schema_name' (name pf) pd (fst st1) = Inr sd2"
      using set_property_total by blast
    from set_property_grows [OF sp ex, of "snd st1"]
    have g2: "grows {schema_name'} st1 (sd2, snd st1)" by simp
    then have hp2: "has_properties (fst (sd2, snd st1)) schema_name'"
      using hp1 by (simp add: grows_def)
    from "3.IH"(3) [OF Some pd rec sp hp2] obtain st' where
      run: "nested_fields_loop self schema_name' rest (sd2, snd st1) = Inr st'"
      and g3: "grows {schema_name'} (sd2, snd st1) st'"
      by blast
    have "grows {schema_name'} st st'"
      using grows_trans [OF grows_trans [OF grows_mono [OF g1] g2] g3] by simp
    moreover from Some pd rec sp run
    have "nested_fields_loop self schema_name' (field # rest) st = Inr st'"
      by simp
    ultimately show ?thesis by blast
  qed
qed

text \<open>
  C6. \<open>process_nested_schema_fields\<close> called for a schema name that is already in
  \<open>created_schemas\<close> returns the state (the schemas map and the set) unchanged. A call
  always returns, and it leaves the name in \<open>created_schemas\<close>: so a second call for
  the same name, with the same or with another nested schema, changes nothing. The keys
  of the map stay distinct.
\<close>

theorem nested_expansion_idempotent:
  "(n \<in> snd st \<longrightarrow> process_nested_schema_fields self n s st = Inr st)
   \<and> (\<exists>st'. process_nested_schema_fields self n s st = Inr st'
          \<and> n \<in> snd st'
          \<and> process_nested_schema_fields self n s st' = Inr st'
          \<and> process_nested_schema_fields self n s2 st' = Inr st'
          \<and> (distinct (map fst (fst st)) \<longrightarrow> distinct (map fst (fst st'))))"
proof -
  have skip: "process_nested_schema_fields self n t st0 = Inr st0" if "n \<in> snd st0" for t st0
    using that by (simp add: process_nested_schema_fields.simps)
  from nested_expansion_grows(1) [of self n s st] obtain st' where
    run: "process_nested_schema_fields self n s st = Inr st'"
    and g: "grows {} st st'" and n: "n \<in> snd st'"
    by blast
  from g have "distinct (map fst (fst st)) \<longrightarrow> distinct (map fst (fst st'))"
    by (simp add: grows_def)
  with run n skip [OF n] skip show ?thesis by blast
qed

lemma process_nameless_field: "process_field nameless_field = None"
  by (simp add: nameless_field_def process_field_def)

lemma example_property:
  "nested_property_def example_generator n
     \<lparr>field_type = ''string'', original_type = ''string'', description = [],
           readonly = False, writeonly = False,
           enum = None, parent_property = None, name = ''comment'',
           deleteonly = False,
           supports_filtering = False, searchable_by = [], required = False,
           is_array = False, supports = ''rw'', nested_schema = None,
           nested_schema_name = None\<rparr>
    = Inr [(''type'', JStr ''string''), (''description'', JStr []),
           (''example'', JStr ''Example comment'')]"
  by (simp add: nested_property_def_def Let_def convert_field_type_to_openapi_def
      type_mapping_def format_mapping_def truthy_list_def add_example_def example_generator_def
      has_key_def)

lemma nested_example_run:
  "process_nested_schema_fields example_generator ''RecordAOptions'' nested_example ([], {})
     = Inr ([(''RecordAOptions'',
              JObj [(''type'', JStr ''object''),
                    (''properties'',
                     JObj [(''comment'',
                            JObj [(''type'', JStr ''string''), (''description'', JStr []),
                                  (''example'', JStr ''Example comment'')])])])],
            {''RecordAOptions''})"
  by (simp add: process_nested_schema_fields.simps nested_example_def process_example_field
      process_nameless_field example_property set_property_def empty_object_schema_def)

text \<open>
  From the empty state the first call creates the schema \<open>RecordAOptions\<close>; the second
  call returns the state of the first.
\<close>

theorem nested_expansion_idempotent_witness:
  "(case process_nested_schema_fields example_generator ''RecordAOptions'' nested_example
           ([], {}) of
      Inr st' \<Rightarrow>
        fst st' \<noteq> [] \<and> ''RecordAOptions'' \<in> snd st'
        \<and> process_nested_schema_fields example_generator ''RecordAOptions'' nested_example st'
            = Inr st'
    | Inl e \<Rightarrow> False)"
  using nested_expansion_idempotent [where n = "''RecordAOptions''" and st = "([], {})"
      and self = example_generator and s = nested_example and ?s2.0 = nested_example]
  by (simp add: nested_example_run)

subsection \<open>The rounds of the emitter\<close>

lemma schema_property_update:
  "schema_property (AList.update n v sd) k g =
     (if k = n then (case v of JObj obj \<Rightarrow>
                       (case map_of obj ''properties'' of
                          Some (JObj props) \<Rightarrow> map_of props g | _ \<Rightarrow> None)
                     | _ \<Rightarrow> None)
      else schema_property sd k g)"
  by (simp add: schema_property_def map_of_update_eq)

lemma schema_property_cong:
  "map_of sd' k = map_of sd k \<Longrightarrow> schema_property sd' k g = schema_property sd k g"
  by (simp add: schema_property_def)

lemma set_property_lookup:
  assumes "set_property n f p sd = Inr sd'"
  shows "schema_property sd' n g = (if g = f then Some (JObj p) else schema_property sd n g)"
proof -
  from assms obtain obj props where
    obj: "map_of sd n = Some (JObj obj)"
    and props: "map_of obj ''properties'' = Some (JObj props)"
    and sd': "sd' = AList.update n
                (JObj (AList.update ''properties'' (JObj (AList.update f (JObj p) props)) obj)) sd"
    by (rule set_property_Inr)
  show ?thesis
    by (simp add: sd' schema_property_update map_of_update_eq)
       (simp add: schema_property_def obj props)
qed

lemma emit_properties_grows:
  assumes "has_properties sd (schema_name schema)"
  shows "\<exists>sd'. emit_properties self schema fds sd = Inr sd'
     \<and> grows {schema_name schema} (sd, cs) (sd', cs)
     \<and> schema_property sd' (schema_name schema) ''_ref''
         = schema_property sd (schema_name schema) ''_ref''"
  using assms
proof (induction fds arbitrary: sd)
  case Nil
  then show ?case by (simp add: grows_refl)
next
  case (Cons a fds)
  obtain field_name fd where a: "a = (field_name, fd)" by (cases a)
  show ?case
  proof (cases "field_name = ''_ref''")
    case True
    with Cons.IH [OF Cons.prems] a show ?thesis
      by (simp add: main_property_def_ref)
  next
    case False
    from main_property_def_cases [OF False, of self schema fd] obtain p where
      p: "main_property_def self schema field_name fd = Inr (Some p)" by blast
    then have ex: "ref_type_exclusive p" by (rule main_property_def_exclusive)
    from set_property_total [OF Cons.prems] obtain sd1 where
      sp: "set_property (schema_name schema) field_name p sd = Inr sd1" by blast
    from set_property_grows [OF sp ex, of cs]
    have g1: "grows {schema_name schema} (sd, cs) (sd1, cs)" .
    with Cons.prems have hp1: "has_properties sd1 (schema_name schema)"
      by (simp add: grows_def)
    from Cons.IH [OF hp1] obtain sd' where
      run: "emit_properties self schema fds sd1 = Inr sd'"
      and g2: "grows {schema_name schema} (sd1, cs) (sd', cs)"
      and r: "schema_property sd' (schema_name schema) ''_ref''
               = schema_property sd1 (schema_name schema) ''_ref''"
      by blast
    from set_property_lookup [OF sp, of "''_ref''"] False
    have "schema_property sd1 (schema_name schema) ''_ref''
            = schema_property sd (schema_name schema) ''_ref''" by auto
    with r run a p sp grows_trans [OF g1 g2] show ?thesis by simp
  qed
qed

lemma primary_schema_grows:
  "grows {schema_name schema} (sd, cs)
     (AList.update (schema_name schema) (primary_schema schema) sd, cs)"
proof -
  have pe: "properties_exclusive (primary_schema schema)"
    by (simp add: properties_exclusive_def primary_schema_def Let_def map_of_update_eq
        builtin_ref_property_def ref_type_exclusive_def has_key_def)
  have "all_properties_exclusive sd \<longrightarrow>
        all_properties_exclusive (AList.update (schema_name schema) (primary_schema schema) sd)"
    unfolding all_properties_exclusive_def using pe by (auto intro: list_all_update)
  moreover have "fst ` set sd
        \<subseteq> fst ` set (AList.update (schema_name schema) (primary_schema schema) sd)"
    by (auto simp: AList.dom_update)
  ultimately show ?thesis
    by (simp add: grows_def has_properties_update primary_schema_def Let_def map_of_update_eq
        AList.distinct_update)
qed

lemma emit_primary_grows:
  "\<exists>sd'. emit_primary self schema sd = Inr sd'
     \<and> grows {schema_name schema} (sd, cs) (sd', cs)
     \<and> has_properties sd' (schema_name schema)
     \<and> schema_property sd' (schema_name schema) ''_ref'' = Some builtin_ref_property"
proof -
  let ?sd1 = "AList.update (schema_name schema) (primary_schema schema) sd"
  have hp: "has_properties ?sd1 (schema_name schema)"
    by (simp add: has_properties_update primary_schema_def Let_def map_of_update_eq)
  have r: "schema_property ?sd1 (schema_name schema) ''_ref'' = Some builtin_ref_property"
    by (simp add: schema_property_update primary_schema_def Let_def map_of_update_eq)
  from emit_properties_grows [OF hp, of self "schema_fields schema" cs] obtain sd' where
    run: "emit_properties self schema (schema_fields schema) ?sd1 = Inr sd'"
    and g: "grows {schema_name schema} (?sd1, cs) (sd', cs)"
    and r': "schema_property sd' (schema_name schema) ''_ref''
               = schema_property ?sd1 (schema_name schema) ''_ref''"
    by blast
  from g hp have "has_properties sd' (schema_name schema)" by (simp add: grows_def)
  with run r r' grows_trans [OF primary_schema_grows g] show ?thesis
    by (simp add: emit_primary_def)
qed

lemma expand_nested_schemas_grows:
  "\<exists>st'. expand_nested_schemas self ns st = Inr st' \<and> grows {} st st'"
proof (induction ns arbitrary: st)
  case Nil
  then show ?case by (simp add: grows_refl)
next
  case (Cons a ns)
  from nested_expansion_grows(1) [of self "nested_name a" "nested_raw a" st] obtain st1 where
    r1: "process_nested_schema_fields self (nested_name a) (nested_raw a) st = Inr st1"
    and g1: "grows {} st st1" by blast
  from Cons.IH [of st1] obtain st' where
    r2: "expand_nested_schemas self ns st1 = Inr st'" and g2: "grows {} st1 st'" by blast
  from r1 r2 grows_trans [OF g1 g2] show ?case by simp
qed

lemma response_values_exclusive:
  "properties_exclusive (list_response schema)"
  "properties_exclusive (create_response schema)"
  "properties_exclusive (get_response schema)"
  "properties_exclusive (update_response schema)"
  by (simp_all add: properties_exclusive_def list_response_def create_response_def
      get_response_def update_response_def Let_def)

lemma add_response_schemas_exclusive:
  assumes "all_properties_exclusive sd"
  shows "all_properties_exclusive (add_response_schemas schema sd)"
  using assms unfolding all_properties_exclusive_def add_response_schemas_def Let_def
  by (auto intro!: list_all_update simp: response_values_exclusive)

lemma add_response_schemas_distinct:
  "distinct (map fst sd) \<Longrightarrow> distinct (map fst (add_response_schemas schema sd))"
  by (simp add: add_response_schemas_def Let_def AList.distinct_update)

lemma add_response_schemas_other:
  "k \<notin> response_names schema \<Longrightarrow> map_of (add_response_schemas schema sd) k = map_of sd k"
  by (simp add: add_response_schemas_def Let_def response_names_def map_of_update_eq
      map_of_cond_update)

lemma emit_schema_summary:
  "\<exists>st'. emit_schema self schema st = Inr st'
     \<and> snd st \<subseteq> snd st'
     \<and> (all_properties_exclusive (fst st) \<longrightarrow> all_properties_exclusive (fst st'))
     \<and> (distinct (map fst (fst st)) \<longrightarrow> distinct (map fst (fst st')))
     \<and> (\<forall>k. k \<noteq> schema_name schema \<and> k \<notin> response_names schema \<and> k \<notin> snd st' - snd st
            \<longrightarrow> map_of (fst st') k = map_of (fst st) k)
     \<and> (schema_name schema \<notin> response_names schema \<and> schema_name schema \<notin> snd st' - snd st
            \<longrightarrow> schema_property (fst st') (schema_name schema) ''_ref''
                  = Some builtin_ref_property)"
proof -
  from emit_primary_grows [of self schema "fst st" "snd st"] obtain sd1 where
    r1: "emit_primary self schema (fst st) = Inr sd1"
    and g1: "grows {schema_name schema} (fst st, snd st) (sd1, snd st)"
    and ref1: "schema_property sd1 (schema_name schema) ''_ref'' = Some builtin_ref_property"
    by blast
  from expand_nested_schemas_grows [of self "nested_schemas schema" "(sd1, snd st)"]
  obtain st2 where
    r2: "expand_nested_schemas self (nested_schemas schema) (sd1, snd st) = Inr st2"
    and g2: "grows {} (sd1, snd st) st2"
    by blast
  let ?st' = "(add_response_schemas schema (fst st2), snd st2)"
  have run: "emit_schema self schema st = Inr ?st'"
    using r1 r2 by (simp add: emit_schema_def)
  have sub: "snd st \<subseteq> snd ?st'"
    using g2 by (simp add: grows_def)
  have ex: "all_properties_exclusive (fst st) \<longrightarrow> all_properties_exclusive (fst ?st')"
    using g1 g2 by (simp add: grows_def add_response_schemas_exclusive)
  have di: "distinct (map fst (fst st)) \<longrightarrow> distinct (map fst (fst ?st'))"
    using g1 g2 by (simp add: grows_def add_response_schemas_distinct)
  have keep2: "map_of (fst st2) k = map_of sd1 k" if "k \<notin> snd st2 - snd st" for k
    using g2 that by (simp add: grows_def)
  have keep1: "map_of sd1 k = map_of (fst st) k" if "k \<noteq> schema_name schema" for k
    using g1 that by (simp add: grows_def)
  have un: "\<forall>k. k \<noteq> schema_name schema \<and> k \<notin> response_names schema
               \<and> k \<notin> snd ?st' - snd st
            \<longrightarrow> map_of (fst ?st') k = map_of (fst st) k"
    by (simp add: add_response_schemas_other keep1 keep2)
  have ref: "schema_name schema \<notin> response_names schema
             \<and> schema_name schema \<notin> snd ?st' - snd st
            \<longrightarrow> schema_property (fst ?st') (schema_name schema) ''_ref''
                  = Some builtin_ref_property"
  proof
    assume a: "schema_name schema \<notin> response_names schema
               \<and> schema_name schema \<notin> snd ?st' - snd st"
    then have "map_of (fst ?st') (schema_name schema) = map_of sd1 (schema_name schema)"
      by (simp add: add_response_schemas_other keep2)
    then have "schema_property (fst ?st') (schema_name schema) ''_ref''
                 = schema_property sd1 (schema_name schema) ''_ref''"
      by (rule schema_property_cong)
    with ref1 show "schema_property (fst ?st') (schema_name schema) ''_ref''
                  = Some builtin_ref_property" by simp
  qed
  from run sub ex di un ref show ?thesis by blast
qed

lemma emit_schemas_summary:
  "\<exists>st'. emit_schemas self schemas st = Inr st'
     \<and> snd st \<subseteq> snd st'
     \<and> (all_properties_exclusive (fst st) \<longrightarrow> all_properties_exclusive (fst st'))
     \<and> (distinct (map fst (fst st)) \<longrightarrow> distinct (map fst (fst st')))
     \<and> (\<forall>k. (\<forall>t \<in> set schemas. k \<noteq> schema_name t \<and> k \<notin> response_names t)
              \<and> k \<notin> snd st' - snd st
            \<longrightarrow> map_of (fst st') k = map_of (fst st) k)"
proof (induction schemas arbitrary: st)
  case Nil
  then show ?case by simp
next
  case (Cons t rest)
  from emit_schema_summary [of self t st] obtain st1 where
    r1: "emit_schema self t st = Inr st1"
    and sub1: "snd st \<subseteq> snd st1"
    and ex1: "all_properties_exclusive (fst st) \<longrightarrow> all_properties_exclusive (fst st1)"
    and di1: "distinct (map fst (fst st)) \<longrightarrow> distinct (map fst (fst st1))"
    and un1: "\<forall>k. k \<noteq> schema_name t \<and> k \<notin> response_names t \<and> k \<notin> snd st1 - snd st
            \<longrightarrow> map_of (fst st1) k = map_of (fst st) k"
    by blast
  from Cons.IH [of st1] obtain st' where
    r2: "emit_schemas self rest st1 = Inr st'"
    and sub2: "snd st1 \<subseteq> snd st'"
    and ex2: "all_properties_exclusive (fst st1) \<longrightarrow> all_properties_exclusive (fst st')"
    and di2: "distinct (map fst (fst st1)) \<longrightarrow> distinct (map fst (fst st'))"
    and un2: "\<forall>k. (\<forall>t \<in> set rest. k \<noteq> schema_name t \<and> k \<notin> response_names t)
              \<and> k \<notin> snd st' - snd st1
            \<longrightarrow> map_of (fst st') k = map_of (fst st1) k"
    by blast
  have un: "\<forall>k. (\<forall>u \<in> set (t # rest). k \<noteq> schema_name u \<and> k \<notin> response_names u)
              \<and> k \<notin> snd st' - snd st
            \<longrightarrow> map_of (fst st') k = map_of (fst st) k"
  proof (intro allI impI)
    fix k
    assume a: "(\<forall>u \<in> set (t # rest). k \<noteq> schema_name u \<and> k \<notin> response_names u)
               \<and> k \<notin> snd st' - snd st"
    with sub1 sub2 have "k \<notin> snd st' - snd st1" "k \<notin> snd st1 - snd st" by auto
    with a un1 un2 show "map_of (fst st') k = map_of (fst st) k" by simp
  qed
  from r1 r2 sub1 sub2 ex1 ex2 di1 di2 un show ?case
    by (intro exI [of _ st']) auto
qed

lemma emit_schemas_builtin_ref:
  assumes "emit_schemas self schemas st = Inr st'"
    and "\<exists>t \<in> set schemas. schema_name t = k"
    and "\<forall>t \<in> set schemas. k \<notin> response_names t"
    and "k \<notin> snd st' - snd st"
  shows "schema_property (fst st') k ''_ref'' = Some builtin_ref_property"
  using assms
proof (induction schemas arbitrary: st)
  case Nil
  then show ?case by simp
next
  case (Cons t rest)
  from emit_schema_summary [of self t st] obtain st1 where
    r1: "emit_schema self t st = Inr st1"
    and sub1: "snd st \<subseteq> snd st1"
    and ref1: "schema_name t \<notin> response_names t \<and> schema_name t \<notin> snd st1 - snd st
            \<longrightarrow> schema_property (fst st1) (schema_name t) ''_ref''
                  = Some builtin_ref_property"
    by blast
  from Cons.prems(1) r1 have r2: "emit_schemas self rest st1 = Inr st'" by simp
  from emit_schemas_summary [of self rest st1] r2 have
    sub2: "snd st1 \<subseteq> snd st'"
    and un2: "\<forall>k. (\<forall>t \<in> set rest. k \<noteq> schema_name t \<and> k \<notin> response_names t)
              \<and> k \<notin> snd st' - snd st1
            \<longrightarrow> map_of (fst st') k = map_of (fst st1) k"
    by auto
  from Cons.prems(4) sub1 sub2 have out: "k \<notin> snd st' - snd st1" "k \<notin> snd st1 - snd st"
    by auto
  show ?case
  proof (cases "\<exists>u \<in> set rest. schema_name u = k")
    case True
    from Cons.prems(3) have "\<forall>t \<in> set rest. k \<notin> response_names t" by simp
    from Cons.IH [OF r2 True this out(1)] show ?thesis .
  next
    case False
    with Cons.prems(2) have kt: "schema_name t = k" by auto
    with Cons.prems(3) out(2) ref1
    have "schema_property (fst st1) k ''_ref'' = Some builtin_ref_property" by simp
    moreover have "(\<forall>t \<in> set rest. k \<noteq> schema_name t \<and> k \<notin> response_names t)
              \<and> k \<notin> snd st' - snd st1"
      using False Cons.prems(3) out(1) by auto
    with un2 have "map_of (fst st') k = map_of (fst st1) k" by blast
    then have "schema_property (fst st') k ''_ref'' = schema_property (fst st1) k ''_ref''"
      by (rule schema_property_cong)
    ultimately show ?thesis by simp
  qed
qed

subsection \<open>The response schemas in the output map\<close>

text \<open>
  The keys of the map after a round of the emitter are the keys before it, the names
  that the round emits, and the names of the nested schemas that it creates.
\<close>

lemma grows_keys_upper:
  assumes "grows M st st'"
  shows "fst ` set (fst st') \<subseteq> fst ` set (fst st) \<union> M \<union> (snd st' - snd st)"
proof
  fix k assume k: "k \<in> fst ` set (fst st')"
  show "k \<in> fst ` set (fst st) \<union> M \<union> (snd st' - snd st)"
  proof (rule ccontr)
    assume n: "k \<notin> fst ` set (fst st) \<union> M \<union> (snd st' - snd st)"
    with assms have "map_of (fst st') k = map_of (fst st) k"
      by (simp add: grows_def)
    moreover from n have "map_of (fst st) k = None"
      by (simp add: map_of_eq_None_iff)
    ultimately have "k \<notin> fst ` set (fst st')"
      by (simp add: map_of_eq_None_iff)
    with k show False by simp
  qed
qed

lemma grows_keys:
  assumes "grows M st st'" and "M \<subseteq> fst ` set (fst st')"
  shows "fst ` set (fst st') = fst ` set (fst st) \<union> M \<union> (snd st' - snd st)"
proof
  show "fst ` set (fst st') \<subseteq> fst ` set (fst st) \<union> M \<union> (snd st' - snd st)"
    using assms(1) by (rule grows_keys_upper)
  from assms(1) have "fst ` set (fst st) \<subseteq> fst ` set (fst st')"
    "snd st' - snd st \<subseteq> fst ` set (fst st')"
    by (simp_all add: grows_def)
  with assms(2) show "fst ` set (fst st) \<union> M \<union> (snd st' - snd st) \<subseteq> fst ` set (fst st')"
    by blast
qed

lemma has_properties_key: "has_properties sd n \<Longrightarrow> n \<in> fst ` set sd"
  by (auto simp: has_properties_iff dest: map_of_SomeD intro: rev_image_eqI)

lemma add_response_schemas_keys:
  "fst ` set (add_response_schemas s sd) =
     fst ` set sd
     \<union> {response_schema_name s, get_schema_name s, update_schema_name s}
     \<union> (if supports_create s then {create_schema_name s} else {})"
  by (auto simp: add_response_schemas_def Let_def AList.dom_update)

lemma emit_schema_run:
  obtains sd1 st2 where
    "emit_primary self s (fst st) = Inr sd1"
    and "grows {schema_name s} (fst st, snd st) (sd1, snd st)"
    and "has_properties sd1 (schema_name s)"
    and "expand_nested_schemas self (nested_schemas s) (sd1, snd st) = Inr st2"
    and "grows {} (sd1, snd st) st2"
    and "emit_schema self s st = Inr (add_response_schemas s (fst st2), snd st2)"
proof -
  from emit_primary_grows [of self s "fst st" "snd st"] obtain sd1 where
    r1: "emit_primary self s (fst st) = Inr sd1"
    and g1: "grows {schema_name s} (fst st, snd st) (sd1, snd st)"
    and hp: "has_properties sd1 (schema_name s)"
    by blast
  from expand_nested_schemas_grows [of self "nested_schemas s" "(sd1, snd st)"]
  obtain st2 where
    r2: "expand_nested_schemas self (nested_schemas s) (sd1, snd st) = Inr st2"
    and g2: "grows {} (sd1, snd st) st2"
    by blast
  from r1 r2 have "emit_schema self s st = Inr (add_response_schemas s (fst st2), snd st2)"
    by (simp add: emit_schema_def)
  with r1 g1 hp r2 g2 show thesis by (rule that)
qed

lemma create_name_not_schema_name: "create_schema_name s \<noteq> schema_name s"
proof
  assume "create_schema_name s = schema_name s"
  then have "length (create_schema_name s) = length (schema_name s)" by simp
  then show False by (simp add: create_schema_name_def)
qed

lemma emit_schema_responses:
  "\<exists>st'. emit_schema self s st = Inr st'
     \<and> snd st \<subseteq> snd st'
     \<and> fst ` set (fst st') = fst ` set (fst st) \<union> emitted_names s \<union> (snd st' - snd st)
     \<and> (response_schema_name s = ''List'' @ schema_name s @ ''Response'' \<longrightarrow>
           map_of (fst st') (response_schema_name s) = Some (list_response s)
         \<and> map_of (fst st') (get_schema_name s) = Some (get_response s)
         \<and> map_of (fst st') (update_schema_name s) = Some (update_response s)
         \<and> (supports_create s \<longrightarrow>
               map_of (fst st') (create_schema_name s) = Some (create_response s))
         \<and> (\<not> supports_create s \<and> create_schema_name s \<notin> snd st' - snd st \<longrightarrow>
               map_of (fst st') (create_schema_name s)
                 = map_of (fst st) (create_schema_name s)))"
proof -
  obtain sd1 st2 where
    g1: "grows {schema_name s} (fst st, snd st) (sd1, snd st)"
    and hp: "has_properties sd1 (schema_name s)"
    and g2: "grows {} (sd1, snd st) st2"
    and run: "emit_schema self s st = Inr (add_response_schemas s (fst st2), snd st2)"
    by (rule emit_schema_run)
  let ?st' = "(add_response_schemas s (fst st2), snd st2)"
  from g2 have sub: "snd st \<subseteq> snd ?st'" by (simp add: grows_def)
  from grows_keys [OF g1] hp has_properties_key
  have k1: "fst ` set sd1 = fst ` set (fst st) \<union> {schema_name s}" by auto
  from grows_keys [OF g2]
  have k2: "fst ` set (fst st2) = fst ` set sd1 \<union> (snd st2 - snd st)" by simp
  have keys: "fst ` set (fst ?st') = fst ` set (fst st) \<union> emitted_names s \<union> (snd ?st' - snd st)"
    unfolding fst_conv snd_conv add_response_schemas_keys k2 k1 emitted_names_def by auto
  have vals: "response_schema_name s = ''List'' @ schema_name s @ ''Response'' \<longrightarrow>
           map_of (fst ?st') (response_schema_name s) = Some (list_response s)
         \<and> map_of (fst ?st') (get_schema_name s) = Some (get_response s)
         \<and> map_of (fst ?st') (update_schema_name s) = Some (update_response s)
         \<and> (supports_create s \<longrightarrow>
               map_of (fst ?st') (create_schema_name s) = Some (create_response s))
         \<and> (\<not> supports_create s \<and> create_schema_name s \<notin> snd ?st' - snd st \<longrightarrow>
               map_of (fst ?st') (create_schema_name s)
                 = map_of (fst st) (create_schema_name s))"
  proof
    assume n: "response_schema_name s = ''List'' @ schema_name s @ ''Response''"
    note look = add_response_schemas_lookup [OF n, of "fst st2"]
    have keep: "map_of (fst st2) (create_schema_name s) = map_of (fst st) (create_schema_name s)"
      if "create_schema_name s \<notin> snd st2 - snd st"
    proof -
      from g2 that have "map_of (fst st2) (create_schema_name s) = map_of sd1 (create_schema_name s)"
        by (simp add: grows_def)
      also from g1 create_name_not_schema_name [of s]
      have "\<dots> = map_of (fst st) (create_schema_name s)"
        by (simp add: grows_def)
      finally show ?thesis .
    qed
    from look keep
    show "map_of (fst ?st') (response_schema_name s) = Some (list_response s)
         \<and> map_of (fst ?st') (get_schema_name s) = Some (get_response s)
         \<and> map_of (fst ?st') (update_schema_name s) = Some (update_response s)
         \<and> (supports_create s \<longrightarrow>
               map_of (fst ?st') (create_schema_name s) = Some (create_response s))
         \<and> (\<not> supports_create s \<and> create_schema_name s \<notin> snd ?st' - snd st \<longrightarrow>
               map_of (fst ?st') (create_schema_name s)
                 = map_of (fst st) (create_schema_name s))"
      by simp
  qed
  from run sub keys vals show ?thesis by blast
qed

lemma emit_schemas_keys:
  "\<exists>st'. emit_schemas self schemas st = Inr st'
     \<and> snd st \<subseteq> snd st'
     \<and> fst ` set (fst st') =
         fst ` set (fst st) \<union> (\<Union>t \<in> set schemas. emitted_names t) \<union> (snd st' - snd st)"
proof (induction schemas arbitrary: st)
  case Nil
  then show ?case by simp
next
  case (Cons t rest)
  from emit_schema_responses [of self t st] obtain st1 where
    r1: "emit_schema self t st = Inr st1"
    and s1: "snd st \<subseteq> snd st1"
    and k1: "fst ` set (fst st1) = fst ` set (fst st) \<union> emitted_names t \<union> (snd st1 - snd st)"
    by blast
  from Cons.IH [of st1] obtain st' where
    r2: "emit_schemas self rest st1 = Inr st'"
    and s2: "snd st1 \<subseteq> snd st'"
    and k2: "fst ` set (fst st') =
         fst ` set (fst st1) \<union> (\<Union>t \<in> set rest. emitted_names t) \<union> (snd st' - snd st1)"
    by blast
  have "fst ` set (fst st') =
         fst ` set (fst st) \<union> (\<Union>u \<in> set (t # rest). emitted_names u) \<union> (snd st' - snd st)"
    unfolding k2 k1 using s1 s2 by auto
  with r1 r2 s1 s2 show ?case by (intro exI [of _ st']) auto
qed

text \<open>
  C2 (as amended). Every round of the Schema Emitter returns, and it reaches the block of
  the response schemas: for a normalized schema (its \<open>response_schema_name\<close> is
  \<open>List{schema_name}Response\<close>), the map after the round of \<open>emit_schema\<close> holds
  the list response, the get response and the update response under their names,
  whatever \<open>supports_modify\<close> is; it holds the create response under
  \<open>Create{schema_name}Response\<close> when \<open>supports_create\<close> is true, and when it is false
  the round leaves the entry of that name as it was (unless a nested schema of that name
  was created in the round). \<open>generate_schemas_for_objects\<close> always returns, and the keys
  of the map that it returns are exactly \<open>ExtAttrs\<close>, the names in \<open>created_schemas\<close>,
  and for every schema of the list its \<open>schema_name\<close>, its list, get and update
  response names, and its create response name if \<open>supports_create\<close> is true.
  Every schema that \<open>process_schema\<close> returns is normalized in that sense.
\<close>

theorem response_schemas_in_output:
  "(\<exists>st'. emit_schema self schema st = Inr st'
      \<and> (response_schema_name schema = ''List'' @ schema_name schema @ ''Response'' \<longrightarrow>
            map_of (fst st') (response_schema_name schema) = Some (list_response schema)
          \<and> map_of (fst st') (get_schema_name schema) = Some (get_response schema)
          \<and> map_of (fst st') (update_schema_name schema) = Some (update_response schema)
          \<and> (supports_create schema \<longrightarrow>
                map_of (fst st') (create_schema_name schema) = Some (create_response schema))
          \<and> (\<not> supports_create schema \<and> create_schema_name schema \<notin> snd st' - snd st \<longrightarrow>
                map_of (fst st') (create_schema_name schema)
                  = map_of (fst st) (create_schema_name schema))))
   \<and> (\<exists>st'. generate_schemas_for_objects self schemas = Inr st'
      \<and> fst ` set (fst st') =
          {''ExtAttrs''} \<union> (\<Union>t \<in> set schemas. emitted_names t) \<union> snd st'
      \<and> (\<forall>s \<in> set schemas.
            has_key (fst st') (response_schema_name s)
            \<and> has_key (fst st') (get_schema_name s)
            \<and> has_key (fst st') (update_schema_name s)
            \<and> (supports_create s \<longrightarrow> has_key (fst st') (create_schema_name s))))
   \<and> (\<forall>raw ot s. process_schema self (Some raw) ot = Inr (Some s) \<longrightarrow>
         response_schema_name s = ''List'' @ schema_name s @ ''Response'')"
proof -
  from emit_schema_responses [of self schema st]
  have round: "\<exists>st'. emit_schema self schema st = Inr st'
      \<and> (response_schema_name schema = ''List'' @ schema_name schema @ ''Response'' \<longrightarrow>
            map_of (fst st') (response_schema_name schema) = Some (list_response schema)
          \<and> map_of (fst st') (get_schema_name schema) = Some (get_response schema)
          \<and> map_of (fst st') (update_schema_name schema) = Some (update_response schema)
          \<and> (supports_create schema \<longrightarrow>
                map_of (fst st') (create_schema_name schema) = Some (create_response schema))
          \<and> (\<not> supports_create schema \<and> create_schema_name schema \<notin> snd st' - snd st \<longrightarrow>
                map_of (fst st') (create_schema_name schema)
                  = map_of (fst st) (create_schema_name schema)))"
    by blast
  let ?st0 = "([(''ExtAttrs'', generate_extensible_attributes_schema)], {}) :: emitter_state"
  from emit_schemas_keys [of self schemas ?st0] obtain st' where
    run: "emit_schemas self schemas ?st0 = Inr st'"
    and keys: "fst ` set (fst st') =
          {''ExtAttrs''} \<union> (\<Union>t \<in> set schemas. emitted_names t) \<union> snd st'"
    by auto
  have "\<forall>s \<in> set schemas.
            has_key (fst st') (response_schema_name s)
            \<and> has_key (fst st') (get_schema_name s)
            \<and> has_key (fst st') (update_schema_name s)
            \<and> (supports_create s \<longrightarrow> has_key (fst st') (create_schema_name s))"
  proof
    fix s assume s: "s \<in> set schemas"
    then have "emitted_names s \<subseteq> fst ` set (fst st')"
      unfolding keys by blast
    then show "has_key (fst st') (response_schema_name s)
            \<and> has_key (fst st') (get_schema_name s)
            \<and> has_key (fst st') (update_schema_name s)
            \<and> (supports_create s \<longrightarrow> has_key (fst st') (create_schema_name s))"
      by (auto simp: has_key_def map_of_eq_None_iff emitted_names_def split: if_splits)
  qed
  with run keys have
    "\<exists>st'. generate_schemas_for_objects self schemas = Inr st'
      \<and> fst ` set (fst st') =
          {''ExtAttrs''} \<union> (\<Union>t \<in> set schemas. emitted_names t) \<union> snd st'
      \<and> (\<forall>s \<in> set schemas.
            has_key (fst st') (response_schema_name s)
            \<and> has_key (fst st') (get_schema_name s)
            \<and> has_key (fst st') (update_schema_name s)
            \<and> (supports_create s \<longrightarrow> has_key (fst st') (create_schema_name s)))"
    by (simp add: generate_schemas_for_objects_def)
  moreover have "\<forall>raw ot s. process_schema self (Some raw) ot = Inr (Some s) \<longrightarrow>
         response_schema_name s = ''List'' @ schema_name s @ ''Response''"
    using process_schema_response_name by blast
  ultimately show ?thesis using round by (intro conjI)
qed

text \<open>
  The schema that restricts \<open>create\<close>: neither \<open>supports_create\<close> nor
  \<open>supports_modify\<close> is true; the map has the list, get and update responses and no
  create response.
\<close>

lemma process_restricted_schema:
  "process_schema example_generator (Some schema_restricting_create) ''record:a''
     = Inr (Some restricted_processed)"
  by (simp add: process_schema_restricting_create restricted_processed_def)

lemma restricted_created:
  "(case generate_schemas_for_objects example_generator [restricted_processed] of
      Inr st' \<Rightarrow> snd st' = {}
    | Inl e \<Rightarrow> False)"
  by code_simp

theorem response_schemas_in_output_witness:
  "process_schema example_generator (Some schema_restricting_create) ''record:a''
     = Inr (Some restricted_processed)
   \<and> \<not> supports_create restricted_processed
   \<and> \<not> supports_modify restricted_processed
   \<and> (case emit_schema example_generator restricted_processed ([], {}) of
        Inr st' \<Rightarrow>
          map_of (fst st') ''ListRecordAResponse'' = Some (list_response restricted_processed)
          \<and> map_of (fst st') ''GetRecordAResponse'' = Some (get_response restricted_processed)
          \<and> map_of (fst st') ''UpdateRecordAResponse''
              = Some (update_response restricted_processed)
          \<and> map_of (fst st') ''CreateRecordAResponse'' = None
      | Inl e \<Rightarrow> False)
   \<and> (case generate_schemas_for_objects example_generator [restricted_processed] of
        Inr st' \<Rightarrow>
          fst ` set (fst st')
            = {''ExtAttrs'', ''RecordA'', ''ListRecordAResponse'', ''GetRecordAResponse'',
               ''UpdateRecordAResponse''}
          \<and> has_key (fst st') ''ListRecordAResponse''
          \<and> has_key (fst st') ''GetRecordAResponse''
          \<and> has_key (fst st') ''UpdateRecordAResponse''
          \<and> \<not> has_key (fst st') ''CreateRecordAResponse''
      | Inl e \<Rightarrow> False)"
proof -
  have names: "schema_name restricted_processed = ''RecordA''"
    "response_schema_name restricted_processed = ''ListRecordAResponse''"
    "get_schema_name restricted_processed = ''GetRecordAResponse''"
    "update_schema_name restricted_processed = ''UpdateRecordAResponse''"
    "create_schema_name restricted_processed = ''CreateRecordAResponse''"
    "\<not> supports_create restricted_processed"
    "\<not> supports_modify restricted_processed"
    by (simp_all add: restricted_processed_def get_schema_name_def update_schema_name_def
        create_schema_name_def)
  have created: "(case emit_schema example_generator restricted_processed ([], {}) of
      Inr st' \<Rightarrow> snd st' = {} | Inl e \<Rightarrow> False)"
    by code_simp
  note t = response_schemas_in_output
    [of example_generator restricted_processed "([], {})" "[restricted_processed]"]
  from t obtain st1 where
    r1: "emit_schema example_generator restricted_processed ([], {}) = Inr st1"
    and v1: "response_schema_name restricted_processed
               = ''List'' @ schema_name restricted_processed @ ''Response'' \<longrightarrow>
            map_of (fst st1) (response_schema_name restricted_processed)
              = Some (list_response restricted_processed)
          \<and> map_of (fst st1) (get_schema_name restricted_processed)
              = Some (get_response restricted_processed)
          \<and> map_of (fst st1) (update_schema_name restricted_processed)
              = Some (update_response restricted_processed)
          \<and> (supports_create restricted_processed \<longrightarrow>
                map_of (fst st1) (create_schema_name restricted_processed)
                  = Some (create_response restricted_processed))
          \<and> (\<not> supports_create restricted_processed
               \<and> create_schema_name restricted_processed \<notin> snd st1 - snd (([], {}) :: emitter_state)
              \<longrightarrow> map_of (fst st1) (create_schema_name restricted_processed)
                  = map_of (fst (([], {}) :: emitter_state)) (create_schema_name restricted_processed))"
    by (elim conjE exE) (rule that)
  from created r1 have c1: "snd st1 = {}" by simp
  from v1 c1 names
  have e: "map_of (fst st1) ''ListRecordAResponse'' = Some (list_response restricted_processed)
          \<and> map_of (fst st1) ''GetRecordAResponse'' = Some (get_response restricted_processed)
          \<and> map_of (fst st1) ''UpdateRecordAResponse''
              = Some (update_response restricted_processed)
          \<and> map_of (fst st1) ''CreateRecordAResponse'' = None"
    by simp
  from t obtain st2 where
    r2: "generate_schemas_for_objects example_generator [restricted_processed] = Inr st2"
    and k2: "fst ` set (fst st2) =
          {''ExtAttrs''} \<union> (\<Union>t \<in> set [restricted_processed]. emitted_names t) \<union> snd st2"
    and h2: "\<forall>s \<in> set [restricted_processed].
            has_key (fst st2) (response_schema_name s)
            \<and> has_key (fst st2) (get_schema_name s)
            \<and> has_key (fst st2) (update_schema_name s)
            \<and> (supports_create s \<longrightarrow> has_key (fst st2) (create_schema_name s))"
    by (elim conjE exE) (rule that)
  from restricted_created r2 have c2: "snd st2 = {}" by simp
  from k2 c2 names have keys: "fst ` set (fst st2)
            = {''ExtAttrs'', ''RecordA'', ''ListRecordAResponse'', ''GetRecordAResponse'',
               ''UpdateRecordAResponse''}"
    by (simp add: emitted_names_def insert_commute)
  then have "''CreateRecordAResponse'' \<notin> fst ` set (fst st2)" by simp
  then have nc: "\<not> has_key (fst st2) ''CreateRecordAResponse''"
    by (simp add: has_key_def map_of_eq_None_iff)
  from h2 names have "has_key (fst st2) ''ListRecordAResponse''
          \<and> has_key (fst st2) ''GetRecordAResponse''
          \<and> has_key (fst st2) ''UpdateRecordAResponse''"
    by simp
  with process_restricted_schema names r1 e r2 keys nc show ?thesis by simp
qed

text \<open>
  The claim as the specification states it, that the update response is there only if
  \<open>supports_modify\<close> is true, fails on that schema: \<open>supports_modify\<close> is false and
  the map that \<open>generate_schemas_for_objects\<close> returns has the key
  \<open>UpdateRecordAResponse\<close>.
\<close>

theorem update_response_without_supports_modify:
  "(case process_schema example_generator (Some schema_restricting_create) ''record:a'' of
      Inr (Some s) \<Rightarrow>
        \<not> supports_modify s
        \<and> (case generate_schemas_for_objects example_generator [s] of
              Inr (schemas_data, created) \<Rightarrow> has_key schemas_data ''UpdateRecordAResponse''
            | Inl e \<Rightarrow> False)
    | _ \<Rightarrow> False)"
  by code_simp

subsection \<open>Nested references\<close>


























subsection \<open>The built-in reference property\<close>

lemma normalized_name_not_response:
  assumes "response_schema_name s = ''List'' @ schema_name s @ ''Response''"
  shows "schema_name s \<notin> response_names s"
proof
  assume "schema_name s \<in> response_names s"
  then have "length (schema_name s) \<in> length ` response_names s" by (rule imageI)
  with assms show False
    by (simp add: response_names_def create_schema_name_def get_schema_name_def
        update_schema_name_def)
qed

text \<open>
  C10 (as amended). A field named \<open>_ref\<close> is skipped by the property emission, so
  after the property emission of a schema the \<open>_ref\<close> property of its primary object
  schema is the built-in string-typed reference property. In the map that
  \<open>generate_schemas_for_objects\<close> returns, the \<open>_ref\<close> property under the name of a
  schema of the list is still the built-in one when that name is no response schema
  name of a schema of the list and is not in \<open>created_schemas\<close> (it was not generated
  as the name of a nested child schema).
\<close>

theorem builtin_ref_property_kept:
  "main_property_def self schema ''_ref'' fd = Inr None
   \<and> builtin_ref_property
       = JObj [(''type'', JStr ''string''),
               (''description'', JStr ''The reference to the object.'')]
   \<and> (\<exists>sd'. emit_primary self schema sd = Inr sd'
          \<and> schema_property sd' (schema_name schema) ''_ref'' = Some builtin_ref_property)
   \<and> (\<exists>st'. generate_schemas_for_objects self schemas = Inr st'
          \<and> (\<forall>s \<in> set schemas.
                (\<forall>t \<in> set schemas. schema_name s \<notin> response_names t)
                \<and> schema_name s \<notin> snd st'
                \<longrightarrow> schema_property (fst st') (schema_name s) ''_ref''
                      = Some builtin_ref_property))"
proof -
  let ?st0 = "([(''ExtAttrs'', generate_extensible_attributes_schema)], {}) :: emitter_state"
  from emit_schemas_summary [of self schemas ?st0] obtain st' where
    run: "emit_schemas self schemas ?st0 = Inr st'" by blast
  have "\<forall>s \<in> set schemas.
          (\<forall>t \<in> set schemas. schema_name s \<notin> response_names t) \<and> schema_name s \<notin> snd st'
          \<longrightarrow> schema_property (fst st') (schema_name s) ''_ref'' = Some builtin_ref_property"
  proof (intro ballI impI)
    fix s
    assume s: "s \<in> set schemas"
      and h: "(\<forall>t \<in> set schemas. schema_name s \<notin> response_names t)
              \<and> schema_name s \<notin> snd st'"
    from s have ex: "\<exists>t \<in> set schemas. schema_name t = schema_name s" by blast
    from h have out: "schema_name s \<notin> snd st' - snd ?st0" by simp
    from h have "\<forall>t \<in> set schemas. schema_name s \<notin> response_names t" by simp
    from emit_schemas_builtin_ref [OF run ex this out]
    show "schema_property (fst st') (schema_name s) ''_ref'' = Some builtin_ref_property" .
  qed
  with run have gen: "\<exists>st'. generate_schemas_for_objects self schemas = Inr st'
          \<and> (\<forall>s \<in> set schemas.
                (\<forall>t \<in> set schemas. schema_name s \<notin> response_names t)
                \<and> schema_name s \<notin> snd st'
                \<longrightarrow> schema_property (fst st') (schema_name s) ''_ref''
                      = Some builtin_ref_property)"
    by (simp add: generate_schemas_for_objects_def)
  from emit_primary_grows [of self schema sd "{}"]
  have prim: "\<exists>sd'. emit_primary self schema sd = Inr sd'
          \<and> schema_property sd' (schema_name schema) ''_ref'' = Some builtin_ref_property"
    by blast
  from main_property_def_ref [of self schema fd] builtin_ref_property_def prim gen
  show ?thesis by (intro conjI)
qed

text \<open>
  A schema with a raw field \<open>_ref\<close> of type \<open>int\<close>: the \<open>_ref\<close> property of the
  emitted schema is the built-in one.
\<close>

lemma process_schema_with_ref_field:
  "process_schema example_generator (Some schema_with_ref_field) ''record:a''
     = Inr (Some ref_field_processed)"
  by code_simp

lemma ref_field_created:
  "(case generate_schemas_for_objects example_generator [ref_field_processed] of
      Inr st' \<Rightarrow> ''RecordA'' \<notin> snd st'
    | Inl e \<Rightarrow> False)"
  by code_simp

theorem builtin_ref_property_kept_witness:
  "process_schema example_generator (Some schema_with_ref_field) ''record:a''
     = Inr (Some ref_field_processed)
   \<and> map_of (schema_fields ref_field_processed) ''_ref'' \<noteq> None
   \<and> (case generate_schemas_for_objects example_generator [ref_field_processed] of
        Inr st' \<Rightarrow>
          schema_property (fst st') ''RecordA'' ''_ref''
            = Some (JObj [(''type'', JStr ''string''),
                          (''description'', JStr ''The reference to the object.'')])
      | Inl e \<Rightarrow> False)"
proof -
  have names: "schema_name ref_field_processed = ''RecordA''"
    "response_schema_name ref_field_processed
       = ''List'' @ schema_name ref_field_processed @ ''Response''"
    by (simp_all add: ref_field_processed_def)
  from normalized_name_not_response [OF names(2)]
  have nr: "''RecordA'' \<notin> response_names ref_field_processed" by (simp add: names(1))
  from builtin_ref_property_kept [of example_generator ref_field_processed host_ipv4addrs
      "[]" "[ref_field_processed]"]
  obtain st' where
    run: "generate_schemas_for_objects example_generator [ref_field_processed] = Inr st'"
    and keep: "\<forall>s \<in> set [ref_field_processed].
                (\<forall>t \<in> set [ref_field_processed]. schema_name s \<notin> response_names t)
                \<and> schema_name s \<notin> snd st'
                \<longrightarrow> schema_property (fst st') (schema_name s) ''_ref''
                      = Some builtin_ref_property"
    by blast
  from ref_field_created run have "''RecordA'' \<notin> snd st'" by simp
  with keep nr names(1)
  have "schema_property (fst st') ''RecordA'' ''_ref'' = Some builtin_ref_property"
    by simp
  moreover have "map_of (schema_fields ref_field_processed) ''_ref'' \<noteq> None"
    by (simp add: ref_field_processed_def)
  ultimately show ?thesis
    using process_schema_with_ref_field run by (simp add: builtin_ref_property_def)
qed

text \<open>
  The claim as the specification states it, that the \<open>_ref\<close> property of the primary
  object schema is always the built-in one, fails when a nested child schema is generated
  under the name of a primary schema: from the schemas of \<open>grid:member\<close> and \<open>grid\<close>,
  the expansion of the field \<open>member\<close> of \<open>grid\<close> replaces the entry \<open>GridMember\<close>, and
  its \<open>_ref\<close> property is the one of the raw field \<open>_ref\<close> of the nested schema.
\<close>

theorem nested_schema_overwrites_builtin_ref:
  "(case (process_schema example_generator (Some member_schema) ''grid:member'',
          process_schema example_generator (Some grid_schema) ''grid'') of
      (Inr (Some m), Inr (Some g)) \<Rightarrow>
        schema_name m = ''GridMember''
        \<and> (case generate_schemas_for_objects example_generator [m, g] of
              Inr (sd, cs) \<Rightarrow>
                schema_property sd ''GridMember'' ''_ref''
                  = Some (JObj [(''type'', JStr ''integer''), (''description'', JStr []),
                                (''format'', JStr ''int64''), (''readOnly'', JBool True),
                                (''example'', JInt 1)])
                \<and> schema_property sd ''GridMember'' ''_ref'' \<noteq> Some builtin_ref_property
            | Inl e \<Rightarrow> False)
    | _ \<Rightarrow> False)"
  by code_simp


end
